theory Spec2Isabelle
  imports Complex_Main "HOL-Library.List_Lexorder" "HOL-Library.Char_ord"
begin

section \<open>JavaScript helpers used by the order repository\<close>

text \<open>
  Strings are byte strings (\<open>string\<close>); row keys and order ids are ASCII. A JavaScript
  number is a double: the sequence numbers of \<open>createOrder\<close> are modelled as the
  integer-valued doubles they are, with the rounding to 53 significant bits written out.
\<close>

text \<open>The decimal digits of a natural number.\<close>

fun string_of_nat :: "nat \<Rightarrow> string" where
  "string_of_nat n =
     (if n < 10 then [char_of (48 + n)]
      else string_of_nat (n div 10) @ [char_of (48 + n mod 10)])"

declare string_of_nat.simps [simp del]

text \<open>\<open>s.padStart(n, pad)\<close>: the pad string repeated and cut to the missing length.\<close>

definition padStart :: "nat \<Rightarrow> string \<Rightarrow> string \<Rightarrow> string" where
  "padStart n pad s =
     take (n - length s) (concat (replicate (n - length s) pad)) @ s"

text \<open>
  The template \<open>`ORD-${String(i).padStart(3, "0")}`\<close> for an integer \<open>i\<close> that a number
  holds exactly and prints in full, as the loop counter of \<open>generateOrders\<close> is.
\<close>

definition order_id :: "nat \<Rightarrow> string" where
  "order_id i = ''ORD-'' @ padStart 3 ''0'' (string_of_nat i)"

text \<open>
  A non-negative number with an integer value, or \<open>Infinity\<close>: the values \<open>maxNum\<close> takes.
\<close>

datatype jsnat = Val nat | Infinity

text \<open>The number of bits of a natural number.\<close>

fun bitlen :: "nat \<Rightarrow> nat" where
  "bitlen n = (if n = 0 then 0 else Suc (bitlen (n div 2)))"

declare bitlen.simps [simp del]

text \<open>
  The double nearest to an integer: beyond 53 bits the low bits are rounded away, to the
  nearest, a tie going to the even significand; from \<open>2^1024\<close> the result is \<open>Infinity\<close>.
\<close>

definition round53 :: "nat \<Rightarrow> nat" where
  "round53 n =
     (if bitlen n \<le> 53 then n
      else let e = bitlen n - 53; q = n div 2 ^ e; r = n mod 2 ^ e; h = 2 ^ (e - 1)
           in (if r < h \<or> (r = h \<and> even q) then q else q + 1) * 2 ^ e)"

definition to_double :: "nat \<Rightarrow> jsnat" where
  "to_double n = (if round53 n < 2 ^ 1024 then Val (round53 n) else Infinity)"

text \<open>\<open>Math.max(a, b)\<close> and \<open>a + 1\<close> on these numbers.\<close>

fun Math_max :: "jsnat \<Rightarrow> jsnat \<Rightarrow> jsnat" where
  "Math_max (Val a) (Val b) = Val (max a b)"
| "Math_max a b = Infinity"

fun plus_one :: "jsnat \<Rightarrow> jsnat" where
  "plus_one (Val n) = to_double (n + 1)"
| "plus_one Infinity = Infinity"

text \<open>
  \<open>String(x)\<close>. Up to \<open>2^53\<close> the digits of the integer. Beyond, the digits of the integer
  with the fewest significant digits that still rounds to \<open>x\<close> (the nearest such, a tie
  going to the even last digit), written in full when it has at most 21 digits and with
  an exponent otherwise.
\<close>

definition shortest :: "nat \<Rightarrow> nat" where
  "shortest x =
     (let nd = length (string_of_nat x)
      in case concat (map (\<lambda>k.
                let p = 10 ^ (nd - k); v1 = x div p * p; v2 = v1 + p;
                    c = (if x - v1 < v2 - x then [v1, v2]
                         else if v2 - x < x - v1 then [v2, v1]
                         else if even (x div p) then [v1, v2] else [v2, v1])
                in filter (\<lambda>v. round53 v = x) c) [1..<18]) of
           [] \<Rightarrow> x
         | v # vs \<Rightarrow> v)"

definition strip_zeros :: "string \<Rightarrow> string" where
  "strip_zeros s = rev (dropWhile (\<lambda>c. c = CHR ''0'') (rev s))"

definition String_num :: "jsnat \<Rightarrow> string" where
  "String_num x =
     (case x of
        Infinity \<Rightarrow> ''Infinity''
      | Val n \<Rightarrow>
          if n \<le> 2 ^ 53 then string_of_nat n
          else let d = string_of_nat (shortest n)
               in if length d \<le> 21 then d
                  else (case strip_zeros d of
                          [] \<Rightarrow> []
                        | [c] \<Rightarrow> [c]
                        | c # cs \<Rightarrow> c # CHR ''.'' # cs)
                       @ ''e+'' @ string_of_nat (length d - 1))"

text \<open>The template \<open>`ORD-${String(maxNum + 1).padStart(3, "0")}`\<close>.\<close>

definition new_order_id :: "jsnat \<Rightarrow> string" where
  "new_order_id maxNum = ''ORD-'' @ padStart 3 ''0'' (String_num (plus_one maxNum))"

text \<open>\<open>\d\<close> matches exactly the ASCII digits.\<close>

definition is_digit :: "char \<Rightarrow> bool" where
  "is_digit c = (48 \<le> (of_char c :: nat) \<and> (of_char c :: nat) \<le> 57)"

text \<open>
  \<open>rowKey.match(/^ORD-(\d+)$/)\<close>: the captured digits when the whole key is \<open>ORD-\<close>
  followed by one or more digits, \<open>None\<close> (JavaScript \<open>null\<close>) otherwise.
\<close>

definition match_ord :: "string \<Rightarrow> string option" where
  "match_ord k =
     (if take 4 k = ''ORD-'' \<and> drop 4 k \<noteq> [] \<and> list_all is_digit (drop 4 k)
      then Some (drop 4 k) else None)"

text \<open>
  The integer that a string of digits writes, and \<open>parseInt(ds, 10)\<close>: the double nearest
  to it.
\<close>

definition decimal_value :: "string \<Rightarrow> nat" where
  "decimal_value ds = foldl (\<lambda>a c. a * 10 + ((of_char c :: nat) - 48)) 0 ds"

definition parseInt :: "string \<Rightarrow> jsnat" where
  "parseInt ds = to_double (decimal_value ds)"

text \<open>
  The scan of \<open>createOrder\<close>: \<open>maxNum\<close> starts at 0 and, for every listed row key that
  matches, becomes \<open>Math.max(maxNum, parseInt(match[1], 10))\<close>.
\<close>

definition scan_max :: "string list \<Rightarrow> jsnat" where
  "scan_max ks =
     foldl (\<lambda>maxNum k. case match_ord k of
                           Some ds \<Rightarrow> Math_max maxNum (parseInt ds)
                         | None \<Rightarrow> maxNum) (Val 0) ks"

text \<open>
  \<open>Array.prototype.sort(cmp)\<close>: a stable sort; an element is placed before the first
  one that the comparator does not rank before it, so elements that compare equal keep
  their order.
\<close>

fun insert_cmp :: "('a \<Rightarrow> 'a \<Rightarrow> int) \<Rightarrow> 'a \<Rightarrow> 'a list \<Rightarrow> 'a list" where
  "insert_cmp cmp x [] = [x]"
| "insert_cmp cmp x (y # ys) =
     (if cmp x y \<le> 0 then x # y # ys else y # insert_cmp cmp x ys)"

fun sort_cmp :: "('a \<Rightarrow> 'a \<Rightarrow> int) \<Rightarrow> 'a list \<Rightarrow> 'a list" where
  "sort_cmp cmp [] = []"
| "sort_cmp cmp (x # xs) = insert_cmp cmp x (sort_cmp cmp xs)"


section \<open>Data model\<close>

datatype OrderStatus = Submitted | Pending | Processing | Shipped | Delivered | Cancelled

text \<open>A JavaScript number used as a currency amount; \<open>Number(x)\<close> of a number is \<open>x\<close>.\<close>

datatype number = Num real | NaN | PosInfinity | NegInfinity

definition Number :: "number \<Rightarrow> number" where
  "Number x = x"

text \<open>\<open>Omit<Order, "id">\<close> and \<open>Order\<close>.\<close>

record order_data =
  customer :: string
  amount :: number
  status :: OrderStatus
  date :: string

record Order = order_data +
  ident :: string

text \<open>\<open>Partial<Omit<Order, "id">>\<close>: an absent (or null) field is \<open>None\<close>.\<close>

record patch =
  patch_customer :: "string option"
  patch_amount :: "number option"
  patch_status :: "OrderStatus option"
  patch_date :: "string option"

definition empty_patch :: patch where
  "empty_patch = \<lparr>patch_customer = None, patch_amount = None,
                   patch_status = None, patch_date = None\<rparr>"

definition status_patch :: "OrderStatus \<Rightarrow> patch" where
  "status_patch S = \<lparr>patch_customer = None, patch_amount = None,
                      patch_status = Some S, patch_date = None\<rparr>"

text \<open>A bot subscription row: \<open>{conversationId, serviceUrl}\<close>.\<close>

record subscription =
  conversationId :: string
  serviceUrl :: string


section \<open>The table store\<close>

text \<open>
  Modelled from the spec: the table-storage SDK (\<open>@azure/data-tables\<close>), an external
  collaborator that is not part of the repository: a keyed record store with create-table,
  list-entities, get-entity, create-entity, replace-entity, upsert-entity, delete-entity
  and batch-submit primitives.

  A table is the list of its rows, each a row key with the row's properties; every call
  of the repository passes the table's constant partition key, so a row is identified by
  its row key. The properties of an Orders row are \<open>id\<close>, \<open>customer\<close>, \<open>amount\<close>,
  \<open>status\<close> and \<open>date\<close>, which is the shape of \<open>Order\<close>. A table that was never
  created is \<open>None\<close>.
\<close>

type_synonym 'v table = "(string \<times> 'v) list"

datatype store_error =
  StoreUnavailable | TableNotFound | TableAlreadyExists
  | EntityAlreadyExists | ResourceNotFound

datatype store_call =
  CreateTable string
  | ListEntities string
  | GetEntity string string
  | CreateEntity string string
  | UpdateEntity string string
  | UpsertEntity string string
  | DeleteEntity string string
  | SubmitTransaction string "string list"

text \<open>\<open>createEntity\<close> inserts a new row and fails when the key is taken.\<close>

definition tbl_create :: "string \<Rightarrow> 'v \<Rightarrow> 'v table \<Rightarrow> store_error + 'v table" where
  "tbl_create k v t =
     (if k \<in> set (map fst t) then Inl EntityAlreadyExists else Inr (t @ [(k, v)]))"

text \<open>
  \<open>updateEntity(entity, "Replace")\<close> replaces the properties of an existing row and
  fails when there is none; \<open>upsertEntity(entity, "Replace")\<close> replaces or inserts.
\<close>

definition tbl_write :: "string \<Rightarrow> 'v \<Rightarrow> 'v table \<Rightarrow> 'v table" where
  "tbl_write k v t = map (\<lambda>(k', v'). if k' = k then (k', v) else (k', v')) t"

definition tbl_replace :: "string \<Rightarrow> 'v \<Rightarrow> 'v table \<Rightarrow> store_error + 'v table" where
  "tbl_replace k v t =
     (if k \<in> set (map fst t) then Inr (tbl_write k v t) else Inl ResourceNotFound)"

definition tbl_upsert :: "string \<Rightarrow> 'v \<Rightarrow> 'v table \<Rightarrow> 'v table" where
  "tbl_upsert k v t =
     (if k \<in> set (map fst t) then tbl_write k v t else t @ [(k, v)])"

text \<open>\<open>deleteEntity\<close> and \<open>getEntity\<close> fail when the row is absent.\<close>

definition tbl_delete :: "string \<Rightarrow> 'v table \<Rightarrow> store_error + 'v table" where
  "tbl_delete k t =
     (if k \<in> set (map fst t) then Inr (filter (\<lambda>r. fst r \<noteq> k) t)
      else Inl ResourceNotFound)"

definition tbl_get :: "string \<Rightarrow> 'v table \<Rightarrow> store_error + 'v" where
  "tbl_get k t = (case map_of t k of None \<Rightarrow> Inl ResourceNotFound | Some v \<Rightarrow> Inr v)"

text \<open>A transaction of create actions is atomic: all rows are inserted, or none.\<close>

definition tbl_transaction :: "'v table \<Rightarrow> 'v table \<Rightarrow> store_error + 'v table" where
  "tbl_transaction acts t =
     (if distinct (map fst acts) \<and> set (map fst acts) \<inter> set (map fst t) = {}
      then Inr (t @ acts) else Inl EntityAlreadyExists)"


section \<open>Cards\<close>

text \<open>
  The card classes of the messaging SDK, as plain data. A fact's value is a text or an
  amount rendered as \<open>`$${Number(amount).toFixed(2)}`\<close> (kept as the number it renders).
\<close>

datatype fact_value = Text string | Dollars number

record ExecuteAction =
  title :: string
  verb :: string
  data_orderId :: string
  style :: string

datatype card_element =
  TextBlock string "(string \<times> string) list"
  | FactSet "(string \<times> fact_value) list"
  | ActionSet "ExecuteAction list"

record AdaptiveCard =
  schema :: string
  version :: string
  body :: "card_element list"

fun status_name :: "OrderStatus \<Rightarrow> string" where
  "status_name Submitted = ''Submitted''"
| "status_name Pending = ''Pending''"
| "status_name Processing = ''Processing''"
| "status_name Shipped = ''Shipped''"
| "status_name Delivered = ''Delivered''"
| "status_name Cancelled = ''Cancelled''"

fun STATUS_COLORS :: "OrderStatus \<Rightarrow> string" where
  "STATUS_COLORS Submitted = ''Accent''"
| "STATUS_COLORS Pending = ''Warning''"
| "STATUS_COLORS Processing = ''Accent''"
| "STATUS_COLORS Shipped = ''Good''"
| "STATUS_COLORS Delivered = ''Good''"
| "STATUS_COLORS Cancelled = ''Attention''"

text \<open>The emoji of the card headers, as their UTF-8 bytes.\<close>

definition emoji_package :: string where
  "emoji_package = [CHR 0xF0, CHR 0x9F, CHR 0x93, CHR 0xA6]"

definition emoji_check :: string where
  "emoji_check = [CHR 0xE2, CHR 0x9C, CHR 0x85]"

definition emoji_cross :: string where
  "emoji_cross = [CHR 0xE2, CHR 0x9D, CHR 0x8C]"

definition emoji_clipboard :: string where
  "emoji_clipboard = [CHR 0xF0, CHR 0x9F, CHR 0x93, CHR 0x8B]"

definition buildNewOrderCard :: "Order \<Rightarrow> AdaptiveCard" where
  "buildNewOrderCard order =
     (let header = TextBlock (emoji_package @ '' New Order Received'')
                     [(''size'', ''Large''), (''weight'', ''Bolder''), (''color'', ''Accent'')];
          facts = FactSet
            [(''Order ID'', Text (ident order)),
             (''Customer'', Text (customer order)),
             (''Amount'', Dollars (Number (amount order))),
             (''Date'', Text (date order)),
             (''Status'', Text (status_name (status order)))];
          accept = \<lparr>title = emoji_check @ '' Accept'', verb = ''order.accept'',
                     data_orderId = ident order, style = ''positive''\<rparr>;
          cancel = \<lparr>title = emoji_cross @ '' Cancel'', verb = ''order.cancel'',
                     data_orderId = ident order, style = ''destructive''\<rparr>;
          actions = ActionSet [accept, cancel]
      in \<lparr>schema = ''http://adaptivecards.io/schemas/adaptive-card.json'',
          version = ''1.5'', body = [header, facts, actions]\<rparr>)"

definition buildConfirmedCard :: "Order \<Rightarrow> string \<Rightarrow> AdaptiveCard" where
  "buildConfirmedCard order actedBy =
     (let label =
            (if status order = Pending then emoji_check @ '' Order Accepted''
             else if status order = Cancelled then emoji_cross @ '' Order Cancelled''
             else emoji_clipboard @ '' Order '' @ status_name (status order));
          header = TextBlock label
                     [(''size'', ''Large''), (''weight'', ''Bolder''),
                      (''color'', STATUS_COLORS (status order))];
          facts = FactSet
            [(''Order ID'', Text (ident order)),
             (''Customer'', Text (customer order)),
             (''Amount'', Dollars (Number (amount order))),
             (''Date'', Text (date order)),
             (''New Status'', Text (status_name (status order))),
             (''Updated by'', Text actedBy)];
          note = TextBlock ''No further actions available.''
                   [(''isSubtle'', ''true''), (''size'', ''Small'')]
      in \<lparr>schema = ''http://adaptivecards.io/schemas/adaptive-card.json'',
          version = ''1.5'', body = [header, facts, note]\<rparr>)"


section \<open>The state of the application\<close>

text \<open>
  The event payloads written to a live session are kept as the objects they serialise.
\<close>

datatype sse_payload = NewOrderEvent Order | OrderUpdatedEvent Order

record sse_client =
  writableEnded :: bool
  written :: "sse_payload list"

text \<open>
  \<open>orders\<close> and \<open>subs\<close> are the two tables. \<open>faults\<close> is the store's availability for
  the coming requests, one entry per request (\<open>True\<close>: that request fails with a
  transport error; no entry left: the request is served). \<open>calls\<close> is the trace of every
  request sent to the store. \<open>sseClients\<close> are the open live sessions and \<open>sent\<close> the
  messages handed to the bot transport, each with the conversation it is addressed to.
\<close>

record world =
  orders :: "Order table option"
  subs :: "subscription table option"
  faults :: "bool list"
  calls :: "store_call list"
  sseClients :: "sse_client list"
  sent :: "(string \<times> AdaptiveCard) list"

definition failing :: "world \<Rightarrow> bool" where
  "failing w = (case faults w of [] \<Rightarrow> False | f # fs \<Rightarrow> f)"

definition logged :: "store_call \<Rightarrow> world \<Rightarrow> world" where
  "logged c w = w\<lparr>faults := drop 1 (faults w), calls := calls w @ [c]\<rparr>"

text \<open>Sending a request: whether it fails in transport, and the state once it is sent.\<close>

definition request :: "store_call \<Rightarrow> world \<Rightarrow> bool \<times> world" where
  "request c w = (failing w, logged c w)"

text \<open>The store serves the next \<open>n\<close> requests.\<close>

definition served :: "nat \<Rightarrow> world \<Rightarrow> bool" where
  "served n w = (True \<notin> set (take n (faults w)))"

text \<open>
  One request against a table: \<open>sel\<close> reads the table off the state, \<open>put\<close> writes it
  back, \<open>f\<close> is what the request does to the rows.
\<close>

definition table_call ::
  "(world \<Rightarrow> 'v table option) \<Rightarrow> ('v table \<Rightarrow> world \<Rightarrow> world) \<Rightarrow> store_call \<Rightarrow>
   ('v table \<Rightarrow> store_error + 'a \<times> 'v table) \<Rightarrow> world \<Rightarrow> (store_error + 'a) \<times> world" where
  "table_call sel put c f w =
     (case request c w of
        (True, w1) \<Rightarrow> (Inl StoreUnavailable, w1)
      | (False, w1) \<Rightarrow>
          (case sel w1 of
             None \<Rightarrow> (Inl TableNotFound, w1)
           | Some t \<Rightarrow>
               (case f t of
                  Inl e \<Rightarrow> (Inl e, w1)
                | Inr (a, t') \<Rightarrow> (Inr a, put t' w1))))"

definition createTable ::
  "(world \<Rightarrow> 'v table option) \<Rightarrow> ('v table \<Rightarrow> world \<Rightarrow> world) \<Rightarrow> string \<Rightarrow>
   world \<Rightarrow> (store_error + unit) \<times> world" where
  "createTable sel put name w =
     (case request (CreateTable name) w of
        (True, w1) \<Rightarrow> (Inl StoreUnavailable, w1)
      | (False, w1) \<Rightarrow>
          (case sel w1 of
             Some t \<Rightarrow> (Inl TableAlreadyExists, w1)
           | None \<Rightarrow> (Inr (), put [] w1)))"

definition with_unit :: "store_error + 'v table \<Rightarrow> store_error + unit \<times> 'v table" where
  "with_unit r = (case r of Inl e \<Rightarrow> Inl e | Inr t \<Rightarrow> Inr ((), t))"

definition TABLE_NAME :: string where
  "TABLE_NAME = ''Orders''"

definition SUB_TABLE :: string where
  "SUB_TABLE = ''BotSubscriptions''"

definition put_orders :: "Order table \<Rightarrow> world \<Rightarrow> world" where
  "put_orders t w = w\<lparr>orders := Some t\<rparr>"

definition put_subs :: "subscription table \<Rightarrow> world \<Rightarrow> world" where
  "put_subs t w = w\<lparr>subs := Some t\<rparr>"

text \<open>The requests of the table client of the Orders table.\<close>

definition orders_listEntities :: "world \<Rightarrow> (store_error + Order table) \<times> world" where
  "orders_listEntities =
     table_call orders put_orders (ListEntities TABLE_NAME) (\<lambda>t. Inr (t, t))"

definition orders_getEntity :: "string \<Rightarrow> world \<Rightarrow> (store_error + Order) \<times> world" where
  "orders_getEntity k =
     table_call orders put_orders (GetEntity TABLE_NAME k)
       (\<lambda>t. case tbl_get k t of Inl e \<Rightarrow> Inl e | Inr v \<Rightarrow> Inr (v, t))"

definition orders_createEntity ::
  "string \<Rightarrow> Order \<Rightarrow> world \<Rightarrow> (store_error + unit) \<times> world" where
  "orders_createEntity k v =
     table_call orders put_orders (CreateEntity TABLE_NAME k)
       (\<lambda>t. with_unit (tbl_create k v t))"

definition orders_updateEntity ::
  "string \<Rightarrow> Order \<Rightarrow> world \<Rightarrow> (store_error + unit) \<times> world" where
  "orders_updateEntity k v =
     table_call orders put_orders (UpdateEntity TABLE_NAME k)
       (\<lambda>t. with_unit (tbl_replace k v t))"

definition orders_submitTransaction ::
  "Order table \<Rightarrow> world \<Rightarrow> (store_error + unit) \<times> world" where
  "orders_submitTransaction acts =
     table_call orders put_orders (SubmitTransaction TABLE_NAME (map fst acts))
       (\<lambda>t. with_unit (tbl_transaction acts t))"

text \<open>The requests of the table client of the BotSubscriptions table.\<close>

definition subs_listEntities :: "world \<Rightarrow> (store_error + subscription table) \<times> world" where
  "subs_listEntities =
     table_call subs put_subs (ListEntities SUB_TABLE) (\<lambda>t. Inr (t, t))"

definition subs_upsertEntity ::
  "string \<Rightarrow> subscription \<Rightarrow> world \<Rightarrow> (store_error + unit) \<times> world" where
  "subs_upsertEntity k v =
     table_call subs put_subs (UpsertEntity SUB_TABLE k)
       (\<lambda>t. Inr ((), tbl_upsert k v t))"

definition subs_deleteEntity :: "string \<Rightarrow> world \<Rightarrow> (store_error + unit) \<times> world" where
  "subs_deleteEntity k =
     table_call subs put_subs (DeleteEntity SUB_TABLE k)
       (\<lambda>t. with_unit (tbl_delete k t))"


section \<open>The order repository\<close>

text \<open>
  \<open>generateOrders(count)\<close>. The random draws of the \<open>i\<close>-th order (customer, amount,
  status and date) are the parameter \<open>rnd i\<close>.
\<close>

definition seed_row :: "(nat \<Rightarrow> order_data) \<Rightarrow> nat \<Rightarrow> string \<times> Order" where
  "seed_row rnd i =
     (let oid = order_id i
      in (oid, \<lparr>customer = customer (rnd i), amount = amount (rnd i),
                status = status (rnd i), date = date (rnd i), ident = oid\<rparr>))"

function generateOrders_loop ::
  "(nat \<Rightarrow> order_data) \<Rightarrow> nat \<Rightarrow> nat \<Rightarrow> Order table \<Rightarrow> Order table" where
  "generateOrders_loop rnd count i acc =
     (if i \<le> count then generateOrders_loop rnd count (Suc i) (acc @ [seed_row rnd i])
      else acc)"
  by pat_completeness auto
termination
  by (relation "measure (\<lambda>(rnd, count, i, acc). Suc count - i)") auto

declare generateOrders_loop.simps [simp del]

definition generateOrders :: "(nat \<Rightarrow> order_data) \<Rightarrow> nat \<Rightarrow> Order table" where
  "generateOrders rnd count = generateOrders_loop rnd count 1 []"

text \<open>
  \<open>seedIfEmpty\<close>: the error of \<open>createTable\<close> is caught and dropped; the listing's first
  element decides; the 100 create actions go to the store as one transaction.
\<close>

definition seedIfEmpty ::
  "(nat \<Rightarrow> order_data) \<Rightarrow> world \<Rightarrow> (store_error + unit) \<times> world" where
  "seedIfEmpty rnd w =
     (case createTable orders put_orders TABLE_NAME w of
        (created, w1) \<Rightarrow>
          (case orders_listEntities w1 of
             (Inl e, w2) \<Rightarrow> (Inl e, w2)
           | (Inr rows, w2) \<Rightarrow>
               (if rows \<noteq> [] then (Inr (), w2)
                else orders_submitTransaction (generateOrders rnd 100) w2)))"

text \<open>The order that \<open>listOrders\<close> and \<open>renameCustomer\<close> read off a listed row.\<close>

definition row_order :: "string \<times> Order \<Rightarrow> Order" where
  "row_order r =
     (case r of (rowKey, entity) \<Rightarrow>
        \<lparr>customer = customer entity, amount = Number (amount entity),
         status = status entity, date = date entity, ident = rowKey\<rparr>)"

text \<open>
  \<open>listOrders\<close>. \<open>a.localeCompare(b)\<close> is the collation of the process's locale, which
  the repository does not define: it is the parameter \<open>localeCompare\<close>.
\<close>

definition listOrders ::
  "(string \<Rightarrow> string \<Rightarrow> int) \<Rightarrow> world \<Rightarrow> (store_error + Order list) \<times> world" where
  "listOrders localeCompare w =
     (case orders_listEntities w of
        (Inl e, w1) \<Rightarrow> (Inl e, w1)
      | (Inr rows, w1) \<Rightarrow>
          (Inr (sort_cmp (\<lambda>a b. localeCompare (ident b) (ident a)) (map row_order rows)),
           w1))"

definition createOrder ::
  "order_data \<Rightarrow> (Order \<Rightarrow> world \<Rightarrow> world) option \<Rightarrow> world \<Rightarrow>
   (store_error + Order) \<times> world" where
  "createOrder data notify w =
     (case orders_listEntities w of
        (Inl e, w1) \<Rightarrow> (Inl e, w1)
      | (Inr rows, w1) \<Rightarrow>
          (let maxNum = scan_max (map fst rows);
               oid = new_order_id maxNum
           in case orders_createEntity oid
                     \<lparr>customer = customer data, amount = amount data,
                      status = status data, date = date data, ident = oid\<rparr> w1 of
                (Inl e, w2) \<Rightarrow> (Inl e, w2)
              | (Inr u, w2) \<Rightarrow>
                  (let order = \<lparr>customer = customer data, amount = Number (amount data),
                                status = status data, date = date data, ident = oid\<rparr>
                   in (Inr order, case notify of None \<Rightarrow> w2 | Some f \<Rightarrow> f order w2))))"

text \<open>The second loop of \<open>renameCustomer\<close>: one replace per collected order, in order.\<close>

fun rename_each :: "string \<Rightarrow> Order list \<Rightarrow> world \<Rightarrow> (store_error + unit) \<times> world" where
  "rename_each newName [] w = (Inr (), w)"
| "rename_each newName (order # rest) w =
     (case orders_updateEntity (ident order)
             \<lparr>customer = newName, amount = amount order, status = status order,
              date = date order, ident = ident order\<rparr> w of
        (Inl e, w1) \<Rightarrow> (Inl e, w1)
      | (Inr u, w1) \<Rightarrow> rename_each newName rest w1)"

definition renameCustomer ::
  "string \<Rightarrow> string \<Rightarrow> world \<Rightarrow> (store_error + nat) \<times> world" where
  "renameCustomer oldName newName w =
     (case orders_listEntities w of
        (Inl e, w1) \<Rightarrow> (Inl e, w1)
      | (Inr rows, w1) \<Rightarrow>
          (let toUpdate = map row_order (filter (\<lambda>r. customer (snd r) = oldName) rows)
           in case rename_each newName toUpdate w1 of
                (Inl e, w2) \<Rightarrow> (Inl e, w2)
              | (Inr u, w2) \<Rightarrow> (Inr (length toUpdate), w2)))"

text \<open>\<open>a ?? b\<close>.\<close>

definition nullish :: "'a option \<Rightarrow> 'a \<Rightarrow> 'a" where
  "nullish a b = (case a of Some x \<Rightarrow> x | None \<Rightarrow> b)"

definition updateOrder ::
  "string \<Rightarrow> patch \<Rightarrow> world \<Rightarrow> (store_error + Order) \<times> world" where
  "updateOrder oid p w =
     (case orders_getEntity oid w of
        (Inl e, w1) \<Rightarrow> (Inl e, w1)
      | (Inr existing, w1) \<Rightarrow>
          (let updated = \<lparr>customer = nullish (patch_customer p) (customer existing),
                          amount = nullish (patch_amount p) (amount existing),
                          status = nullish (patch_status p) (status existing),
                          date = nullish (patch_date p) (date existing),
                          ident = oid\<rparr>
           in case orders_updateEntity oid updated w1 of
                (Inl e, w2) \<Rightarrow> (Inl e, w2)
              | (Inr u, w2) \<Rightarrow>
                  (Inr \<lparr>customer = customer updated, amount = Number (amount updated),
                        status = status updated, date = date updated, ident = oid\<rparr>,
                   w2)))"


section \<open>The conversation registry\<close>

text \<open>
  \<open>Buffer.from(conversationId).toString("base64")\<close>: the bytes of the id, three at a
  time, as four characters of the base64 alphabet, the last group padded with \<open>=\<close>.
\<close>

definition b64_alphabet :: string where
  "b64_alphabet = ''ABCDEFGHIJKLMNOPQRSTUVWXYZabcdefghijklmnopqrstuvwxyz0123456789+/''"

definition b64 :: "nat \<Rightarrow> char" where
  "b64 n = b64_alphabet ! n"

fun base64_bytes :: "nat list \<Rightarrow> string" where
  "base64_bytes [] = []"
| "base64_bytes [a] = [b64 (a div 4), b64 (a mod 4 * 16), CHR ''='', CHR ''='']"
| "base64_bytes [a, b] =
     [b64 (a div 4), b64 (a mod 4 * 16 + b div 16), b64 (b mod 16 * 4), CHR ''='']"
| "base64_bytes (a # b # c # rest) =
     [b64 (a div 4), b64 (a mod 4 * 16 + b div 16), b64 (b mod 16 * 4 + c div 64),
      b64 (c mod 64)] @ base64_bytes rest"

definition base64 :: "string \<Rightarrow> string" where
  "base64 s = base64_bytes (map of_char s)"

text \<open>\<open>.replace(/[/+=]/g, "_")\<close>.\<close>

definition replace_unsafe :: "string \<Rightarrow> string" where
  "replace_unsafe s =
     map (\<lambda>c. if c = CHR ''/'' \<or> c = CHR ''+'' \<or> c = CHR ''='' then CHR ''_'' else c) s"

definition rowKey_of :: "string \<Rightarrow> string" where
  "rowKey_of cid = replace_unsafe (base64 cid)"

definition ensureSubTable :: "world \<Rightarrow> (store_error + unit) \<times> world" where
  "ensureSubTable w =
     (case createTable subs put_subs SUB_TABLE w of (created, w1) \<Rightarrow> (Inr (), w1))"

definition saveConversation ::
  "string \<Rightarrow> string \<Rightarrow> world \<Rightarrow> (store_error + unit) \<times> world" where
  "saveConversation cid url w =
     (let rowKey = rowKey_of cid
      in subs_upsertEntity rowKey \<lparr>conversationId = cid, serviceUrl = url\<rparr> w)"

text \<open>\<open>removeConversation\<close>: whatever the delete rejects with is caught and dropped.\<close>

definition removeConversation :: "string \<Rightarrow> world \<Rightarrow> (store_error + unit) \<times> world" where
  "removeConversation cid w =
     (let rowKey = rowKey_of cid
      in case subs_deleteEntity rowKey w of
           (Inl e, w1) \<Rightarrow> (Inr (), w1)
         | (Inr u, w1) \<Rightarrow> (Inr (), w1))"

definition listConversations :: "world \<Rightarrow> (store_error + string list) \<times> world" where
  "listConversations w =
     (case subs_listEntities w of
        (Inl e, w1) \<Rightarrow> (Inl e, w1)
      | (Inr rows, w1) \<Rightarrow>
          (Inr (filter (\<lambda>c. c \<noteq> []) (map (\<lambda>r. conversationId (snd r)) rows)), w1))"

section \<open>The server: notification fan-out and handlers\<close>

text \<open>The loop over \<open>sseClients\<close>: the payload is written to every session not ended.\<close>

definition sse_write :: "sse_payload \<Rightarrow> world \<Rightarrow> world" where
  "sse_write payload w =
     w\<lparr>sseClients :=
         map (\<lambda>client. if \<not> writableEnded client
                        then client\<lparr>written := written client @ [payload]\<rparr>
                        else client) (sseClients w)\<rparr>"

text \<open>
  \<open>broadcastNewOrder\<close>: the write to the live sessions, then the card to every stored
  conversation. A failure to list the conversations is logged and nothing is sent.
\<close>

definition broadcastNewOrder :: "Order \<Rightarrow> world \<Rightarrow> world" where
  "broadcastNewOrder order w =
     (let w1 = sse_write (NewOrderEvent order) w;
          card = buildNewOrderCard order
      in case listConversations w1 of
           (Inl e, w2) \<Rightarrow> w2
         | (Inr conversationIds, w2) \<Rightarrow>
             w2\<lparr>sent := sent w2 @ map (\<lambda>c. (c, card)) conversationIds\<rparr>)"

text \<open>\<open>String(err)\<close> of a store error.\<close>

fun error_text :: "store_error \<Rightarrow> string" where
  "error_text StoreUnavailable = ''StoreUnavailable''"
| "error_text TableNotFound = ''TableNotFound''"
| "error_text TableAlreadyExists = ''TableAlreadyExists''"
| "error_text EntityAlreadyExists = ''EntityAlreadyExists''"
| "error_text ResourceNotFound = ''ResourceNotFound''"

text \<open>
  The card action event: \<open>activity.value.action\<close> (possibly absent) with its \<open>verb\<close> and
  the \<open>orderId\<close> property of its \<open>data\<close> (absent when \<open>data\<close> or the property is), and
  \<open>activity.from.name\<close>.
\<close>

datatype json = JString string | JNumber number | JBool bool | JNull | JObject

record invoke_action =
  action_verb :: "string option"
  action_orderId :: "json option"

record card_activity =
  action :: "invoke_action option"
  from_name :: "string option"

datatype invoke_value =
  ErrorValue string string nat
  | CardValue AdaptiveCard

record invoke_response =
  statusCode :: nat
  response_type :: string
  response_value :: invoke_value

text \<open>\<open>action?.verb ?? ""\<close> and \<open>typeof data?.orderId === "string" ? data.orderId : ""\<close>.\<close>

definition verb_of :: "card_activity \<Rightarrow> string" where
  "verb_of activity =
     (case action activity of None \<Rightarrow> [] | Some a \<Rightarrow> nullish (action_verb a) [])"

definition orderId_of :: "card_activity \<Rightarrow> string" where
  "orderId_of activity =
     (case action activity of
        None \<Rightarrow> []
      | Some a \<Rightarrow> (case action_orderId a of Some (JString s) \<Rightarrow> s | _ \<Rightarrow> []))"

definition card_action :: "card_activity \<Rightarrow> world \<Rightarrow> invoke_response \<times> world" where
  "card_action activity w =
     (let v = verb_of activity;
          orderId = orderId_of activity
      in if orderId = [] \<or> (v \<noteq> ''order.accept'' \<and> v \<noteq> ''order.cancel'')
         then (\<lparr>statusCode = 400, response_type = ''application/vnd.microsoft.error'',
                 response_value = ErrorValue ''BadRequest'' ''Unknown action'' 400\<rparr>, w)
         else
           (let newStatus = (if v = ''order.accept'' then Pending else Cancelled)
            in case updateOrder orderId (status_patch newStatus) w of
                 (Inr updated, w1) \<Rightarrow>
                   (let actedBy = nullish (from_name activity) ''Unknown'';
                        confirmedCard = buildConfirmedCard updated actedBy;
                        w2 = sse_write (OrderUpdatedEvent updated) w1
                    in (\<lparr>statusCode = 200,
                          response_type = ''application/vnd.microsoft.card.adaptive'',
                          response_value = CardValue confirmedCard\<rparr>, w2))
               | (Inl err, w1) \<Rightarrow>
                   (\<lparr>statusCode = 500, response_type = ''application/vnd.microsoft.error'',
                     response_value = ErrorValue ''InternalError'' (error_text err) 500\<rparr>,
                    w1)))"

text \<open>
  \<open>POST /api/orders\<close>. The body's amount is taken as a number already; \<open>today\<close> is the
  current date.
\<close>

datatype http_body = OrderJson Order | ErrorJson string

record http_response =
  http_status :: nat
  http_json :: http_body

definition post_orders ::
  "string \<Rightarrow> number \<Rightarrow> string \<Rightarrow> world \<Rightarrow> http_response \<times> world" where
  "post_orders cust rawAmount today w =
     (case createOrder \<lparr>customer = cust, amount = Number rawAmount,
                         status = Submitted, date = today\<rparr>
                       (Some broadcastNewOrder) w of
        (Inr created, w1) \<Rightarrow> (\<lparr>http_status = 201, http_json = OrderJson created\<rparr>, w1)
      | (Inl err, w1) \<Rightarrow>
          (\<lparr>http_status = 500, http_json = ErrorJson (error_text err)\<rparr>, w1))"

text \<open>A store whose two tables exist and are empty, with nothing else going on.\<close>

definition empty_store :: world where
  "empty_store = \<lparr>orders = Some [], subs = Some [], faults = [], calls = [],
                   sseClients = [], sent = []\<rparr>"

text \<open>Calls of \<open>createOrder\<close> one after the other, each awaited before the next.\<close>

fun create_all ::
  "order_data list \<Rightarrow> world \<Rightarrow> (store_error + Order) list \<times> world" where
  "create_all [] w = ([], w)"
| "create_all (d # ds) w =
     (case createOrder d None w of
        (r, w1) \<Rightarrow> (case create_all ds w1 of (rs, w2) \<Rightarrow> (r # rs, w2)))"

section \<open>Vocabulary of the properties\<close>

text \<open>The number of orders of the store whose customer is \<open>name\<close>.\<close>

definition count_customer :: "string \<Rightarrow> world \<Rightarrow> nat" where
  "count_customer name w =
     (case orders w of
        None \<Rightarrow> 0
      | Some t \<Rightarrow> length (filter (\<lambda>r. customer (snd r) = name) t))"

text \<open>The rows of a table other than the row of key \<open>k\<close>.\<close>

definition other_rows :: "string \<Rightarrow> 'v table option \<Rightarrow> 'v table option" where
  "other_rows k tbl = map_option (filter (\<lambda>r. fst r \<noteq> k)) tbl"

text \<open>
  The largest numeric suffix among the keys of the shape \<open>ORD-<digits>\<close>, and 0 when
  there is none, as integers.
\<close>

definition max_suffix :: "string list \<Rightarrow> nat" where
  "max_suffix ks =
     Max (insert 0 ((\<lambda>k. decimal_value (drop 4 k)) ` {k \<in> set ks. match_ord k \<noteq> None}))"

text \<open>
  A row key of the shape \<open>ORD-<digits>\<close>: the shape of the ids that \<open>seedIfEmpty\<close>
  assigns, and \<open>createOrder\<close> while the numeric suffixes are below \<open>2^53\<close>.
\<close>

definition is_order_key :: "string \<Rightarrow> bool" where
  "is_order_key k = (match_ord k \<noteq> None)"

text \<open>
  What is known of the locale's collation: on two keys of that shape its sign is that of
  the lexicographic comparison.
\<close>

definition collates_order_keys :: "(string \<Rightarrow> string \<Rightarrow> int) \<Rightarrow> bool" where
  "collates_order_keys localeCompare =
     (\<forall>a b. is_order_key a \<and> is_order_key b \<longrightarrow>
            (localeCompare a b < 0) = (a < b) \<and> (localeCompare a b \<le> 0) = (a \<le> b))"

text \<open>The comparison of two strings character by character, as a comparator.\<close>

definition compare_chars :: "string \<Rightarrow> string \<Rightarrow> int" where
  "compare_chars a b = (if a < b then - 1 else if a = b then 0 else 1)"

text \<open>
  A collation as a locale has it on letters and digits: letters are compared without
  regard to case, and case only breaks a tie, the lower case first.
\<close>

definition to_lower :: "char \<Rightarrow> char" where
  "to_lower c =
     (if 65 \<le> (of_char c :: nat) \<and> (of_char c :: nat) \<le> 90
      then char_of ((of_char c :: nat) + 32) else c)"

definition compare_folded :: "string \<Rightarrow> string \<Rightarrow> int" where
  "compare_folded a b =
     (if map to_lower a < map to_lower b then - 1
      else if map to_lower b < map to_lower a then 1
      else compare_chars b a)"

text \<open>A store with one order and one live session, used to exercise the operations.\<close>

definition sample_order :: Order where
  "sample_order = \<lparr>customer = ''Contoso Ltd.'', amount = Num 42.5, status = Submitted,
                    date = ''2026-02-24'', ident = ''ORD-001''\<rparr>"

definition sample_store :: world where
  "sample_store = \<lparr>orders = Some [(''ORD-001'', sample_order)], subs = Some [],
                    faults = [], calls = [],
                    sseClients = [\<lparr>writableEnded = False, written = []\<rparr>], sent = []\<rparr>"


text \<open>A store with three orders, two of them of the same customer.\<close>

definition three_orders :: world where
  "three_orders =
     \<lparr>orders = Some
        [(''ORD-001'', \<lparr>customer = ''Contoso Ltd.'', amount = Num 42.5, status = Submitted,
                        date = ''2026-02-24'', ident = ''ORD-001''\<rparr>),
         (''ORD-002'', \<lparr>customer = ''Fabrikam Inc.'', amount = Num 10, status = Shipped,
                        date = ''2026-02-25'', ident = ''ORD-002''\<rparr>),
         (''ORD-003'', \<lparr>customer = ''Contoso Ltd.'', amount = Num 7, status = Pending,
                        date = ''2026-02-26'', ident = ''ORD-003''\<rparr>)],
      subs = Some [], faults = [], calls = [], sseClients = [], sent = []\<rparr>"

text \<open>A store whose row keys differ in the case of their letters.\<close>

definition mixed_case_orders :: world where
  "mixed_case_orders =
     \<lparr>orders = Some
        [(''ORD-001'', \<lparr>customer = ''Contoso Ltd.'', amount = Num 42.5, status = Submitted,
                        date = ''2026-02-24'', ident = ''ORD-001''\<rparr>),
         (''ORD-003'', \<lparr>customer = ''Fabrikam Inc.'', amount = Num 10, status = Shipped,
                        date = ''2026-02-25'', ident = ''ORD-003''\<rparr>),
         (''Ord-004'', \<lparr>customer = ''Contoso Ltd.'', amount = Num 7, status = Pending,
                        date = ''2026-02-26'', ident = ''Ord-004''\<rparr>),
         (''ord-002'', \<lparr>customer = ''Contoso Ltd.'', amount = Num 8, status = Pending,
                        date = ''2026-02-27'', ident = ''ord-002''\<rparr>)],
      subs = Some [], faults = [], calls = [], sseClients = [], sent = []\<rparr>"

text \<open>Stores whose one row has a numeric suffix of \<open>2^53 + 1\<close> and of \<open>2^53\<close>.\<close>

definition suffix_above_2_53 :: world where
  "suffix_above_2_53 =
     \<lparr>orders = Some
        [(''ORD-9007199254740993'',
          \<lparr>customer = ''Contoso Ltd.'', amount = Num 42.5, status = Submitted,
           date = ''2026-02-24'', ident = ''ORD-9007199254740993''\<rparr>)],
      subs = Some [], faults = [], calls = [], sseClients = [], sent = []\<rparr>"

definition suffix_at_2_53 :: world where
  "suffix_at_2_53 =
     \<lparr>orders = Some
        [(''ORD-9007199254740992'',
          \<lparr>customer = ''Contoso Ltd.'', amount = Num 42.5, status = Submitted,
           date = ''2026-02-24'', ident = ''ORD-9007199254740992''\<rparr>)],
      subs = Some [], faults = [], calls = [], sseClients = [], sent = []\<rparr>"

text \<open>Random draws that cycle through two customers and two statuses.\<close>

definition sample_draws :: "nat \<Rightarrow> order_data" where
  "sample_draws i =
     (if even i
      then \<lparr>customer = ''Contoso Ltd.'', amount = Num 100, status = Pending,
            date = ''2026-02-24''\<rparr>
      else \<lparr>customer = ''Fabrikam Inc.'', amount = Num 250, status = Shipped,
            date = ''2025-11-02''\<rparr>)"

section \<open>Facts about the store\<close>

lemma served_Suc: "served (Suc n) w \<Longrightarrow> \<not> failing w \<and> served n (logged c w)"
  by (auto simp: served_def failing_def logged_def split: list.splits dest: in_set_dropD)

lemma served_mono: "served n w \<Longrightarrow> m \<le> n \<Longrightarrow> served m w"
  unfolding served_def using set_take_subset_set_take[of m n "faults w"] by blast

lemma logged_fields [simp]:
  "orders (logged c w) = orders w" "subs (logged c w) = subs w"
  "sseClients (logged c w) = sseClients w" "sent (logged c w) = sent w"
  "calls (logged c w) = calls w @ [c]"
  by (simp_all add: logged_def)

lemma served_put_orders [simp]: "served n (put_orders t w) = served n w"
  by (simp add: served_def put_orders_def)

lemma put_orders_fields [simp]:
  "orders (put_orders t w) = Some t" "subs (put_orders t w) = subs w"
  "sseClients (put_orders t w) = sseClients w" "sent (put_orders t w) = sent w"
  "calls (put_orders t w) = calls w" "faults (put_orders t w) = faults w"
  by (simp_all add: put_orders_def)

lemma put_orders_same: "orders w = Some t \<Longrightarrow> put_orders t w = w"
  by (cases w) (simp add: put_orders_def)

lemma tbl_write_simps [simp]:
  "tbl_write k v [] = []"
  "tbl_write k v ((k', v') # t) = (k', if k' = k then v else v') # tbl_write k v t"
  by (simp_all add: tbl_write_def)

lemma map_fst_tbl_write [simp]: "map fst (tbl_write k v t) = map fst t"
  by (simp add: tbl_write_def case_prod_beta comp_def)

lemma map_of_tbl_write_at:
  "map_of (tbl_write k v t) x =
     (if x = k \<and> k \<in> set (map fst t) then Some v else map_of t x)"
proof (induction t)
  case Nil
  show ?case by simp
next
  case (Cons r t)
  obtain k' v' where r: "r = (k', v')" by (cases r)
  show ?case unfolding r using Cons.IH by (cases "k' = k") (auto simp: rev_image_eqI)
qed

lemma map_of_tbl_write:
  "k \<in> set (map fst t) \<Longrightarrow> map_of (tbl_write k v t) = (map_of t)(k \<mapsto> v)"
  by (rule ext) (simp add: map_of_tbl_write_at)

lemma map_of_in_keys: "map_of t k = Some e \<Longrightarrow> k \<in> set (map fst t)"
  by (metis map_of_eq_None_iff option.distinct(1) set_map)

lemma listEntities_ok:
  "\<not> failing w \<Longrightarrow> orders w = Some t \<Longrightarrow>
   orders_listEntities w = (Inr t, logged (ListEntities TABLE_NAME) w)"
  by (simp add: orders_listEntities_def table_call_def request_def put_orders_same)

lemma getEntity_ok:
  "\<not> failing w \<Longrightarrow> orders w = Some t \<Longrightarrow>
   orders_getEntity k w = (tbl_get k t, logged (GetEntity TABLE_NAME k) w)"
  by (simp add: orders_getEntity_def table_call_def request_def put_orders_same
      split: sum.splits)

lemma updateEntity_ok:
  "\<not> failing w \<Longrightarrow> orders w = Some t \<Longrightarrow> k \<in> set (map fst t) \<Longrightarrow>
   orders_updateEntity k v w =
     (Inr (), put_orders (tbl_write k v t) (logged (UpdateEntity TABLE_NAME k) w))"
  by (simp add: orders_updateEntity_def table_call_def request_def with_unit_def
      tbl_replace_def)

lemma served_sample_store: "served n sample_store"
  by (simp add: served_def sample_store_def)


section \<open>updateOrder\<close>

text \<open>
  The outcome of \<open>updateOrder\<close> on a stored order, when the store serves its two
  requests: the merged record is returned and written over the row.
\<close>

lemma updateOrder_ok:
  assumes "served 2 w" and "orders w = Some t" and "map_of t oid = Some e"
  shows "updateOrder oid p w =
           (let updated = \<lparr>customer = nullish (patch_customer p) (customer e),
                           amount = nullish (patch_amount p) (amount e),
                           status = nullish (patch_status p) (status e),
                           date = nullish (patch_date p) (date e), ident = oid\<rparr>
            in (Inr updated,
                put_orders (tbl_write oid updated t)
                  (logged (UpdateEntity TABLE_NAME oid) (logged (GetEntity TABLE_NAME oid) w))))"
proof -
  have s2: "served (Suc (Suc 0)) w" using assms(1) by (simp add: numeral_2_eq_2)
  let ?w1 = "logged (GetEntity TABLE_NAME oid) w"
  from served_Suc[OF s2] have nf: "\<not> failing w" and s1: "served (Suc 0) ?w1" by auto
  from served_Suc[OF s1] have nf1: "\<not> failing ?w1" by auto
  have k: "oid \<in> set (map fst t)" using assms(3) by (rule map_of_in_keys)
  have g: "orders_getEntity oid w = (Inr e, ?w1)"
    using getEntity_ok[OF nf assms(2)] assms(3) by (simp add: tbl_get_def)
  have o1: "orders ?w1 = Some t" using assms(2) by simp
  show ?thesis
    unfolding updateOrder_def g
    by (simp add: Let_def Number_def updateEntity_ok[OF nf1 o1 k])
qed

text \<open>
  C2. For an order id present in the store, \<open>updateOrder(id, {status: S})\<close> returns the
  stored record with its status set to \<open>S\<close>; customer, amount and date are those stored
  before the call. The stored row holds the same record, every other row key looks up
  the record it did before, and the row keys are the same. (The \<open>id\<close> property of the
  row is written as the row key, which it is in every row the repository writes.)
\<close>

theorem updateOrder_status_only:
  assumes "served 2 w" and "orders w = Some t" and "map_of t oid = Some e"
  shows "\<exists>w' t'. updateOrder oid (status_patch S) w =
            (Inr \<lparr>customer = customer e, amount = amount e, status = S, date = date e,
                  ident = oid\<rparr>, w')
          \<and> orders w' = Some t'
          \<and> map fst t' = map fst t
          \<and> map_of t' = (map_of t)(oid \<mapsto> \<lparr>customer = customer e, amount = amount e,
                                            status = S, date = date e, ident = oid\<rparr>)"
proof -
  have k: "oid \<in> set (map fst t)" using assms(3) by (rule map_of_in_keys)
  show ?thesis
    unfolding updateOrder_ok[OF assms]
    by (simp add: Let_def status_patch_def nullish_def map_of_tbl_write[OF k])
qed


theorem updateOrder_status_only_witness:
  "served 2 sample_store
   \<and> orders sample_store = Some [(''ORD-001'', sample_order)]
   \<and> map_of [(''ORD-001'', sample_order)] ''ORD-001'' = Some sample_order
   \<and> fst (updateOrder ''ORD-001'' (status_patch Shipped) sample_store) =
       Inr \<lparr>customer = ''Contoso Ltd.'', amount = Num 42.5, status = Shipped,
            date = ''2026-02-24'', ident = ''ORD-001''\<rparr>"
proof -
  have h1: "served 2 sample_store" by (rule served_sample_store)
  have h2: "orders sample_store = Some [(''ORD-001'', sample_order)]"
    by (simp add: sample_store_def)
  have h3: "map_of [(''ORD-001'', sample_order)] ''ORD-001'' = Some sample_order" by simp
  from updateOrder_status_only[OF h1 h2 h3, of Shipped]
  obtain w' where "updateOrder ''ORD-001'' (status_patch Shipped) sample_store =
          (Inr \<lparr>customer = customer sample_order, amount = amount sample_order,
               status = Shipped, date = date sample_order, ident = ''ORD-001''\<rparr>, w')"
    by blast
  then have "fst (updateOrder ''ORD-001'' (status_patch Shipped) sample_store) =
          Inr \<lparr>customer = customer sample_order, amount = amount sample_order,
               status = Shipped, date = date sample_order, ident = ''ORD-001''\<rparr>"
    by simp
  then show ?thesis using h1 h2 h3 by (simp add: sample_order_def)
qed

text \<open>
  C3. For an order id present in the store, \<open>updateOrder(id, {})\<close> returns the stored
  record as it was before the call, and the table is left as it was: same row keys, and
  every row key looks up the same record. (The stored record's \<open>id\<close> is its row key.)
\<close>

theorem updateOrder_empty_patch:
  assumes "served 2 w" and "orders w = Some t" and "map_of t oid = Some e"
    and "ident e = oid"
  shows "\<exists>w' t'. updateOrder oid empty_patch w = (Inr e, w')
          \<and> orders w' = Some t'
          \<and> map fst t' = map fst t
          \<and> map_of t' = map_of t"
proof -
  have k: "oid \<in> set (map fst t)" using assms(3) by (rule map_of_in_keys)
  have e: "\<lparr>customer = customer e, amount = amount e, status = status e, date = date e,
            ident = oid\<rparr> = e"
    using assms(4) by (cases e) simp
  have m: "(map_of t)(oid \<mapsto> e) = map_of t"
    using assms(3) by (simp add: fun_upd_idem)
  show ?thesis
    unfolding updateOrder_ok[OF assms(1-3)]
    by (simp add: Let_def empty_patch_def nullish_def map_of_tbl_write[OF k] e m)
qed

theorem updateOrder_empty_patch_witness:
  "served 2 sample_store
   \<and> orders sample_store = Some [(''ORD-001'', sample_order)]
   \<and> map_of [(''ORD-001'', sample_order)] ''ORD-001'' = Some sample_order
   \<and> ident sample_order = ''ORD-001''
   \<and> fst (updateOrder ''ORD-001'' empty_patch sample_store) = Inr sample_order
   \<and> orders (snd (updateOrder ''ORD-001'' empty_patch sample_store)) =
       Some [(''ORD-001'', sample_order)]"
proof -
  have h1: "served 2 sample_store" by (rule served_sample_store)
  have h2: "orders sample_store = Some [(''ORD-001'', sample_order)]"
    by (simp add: sample_store_def)
  have h3: "map_of [(''ORD-001'', sample_order)] ''ORD-001'' = Some sample_order" by simp
  have h4: "ident sample_order = ''ORD-001''" by (simp add: sample_order_def)
  from updateOrder_empty_patch[OF h1 h2 h3 h4]
  obtain w' t' where r: "updateOrder ''ORD-001'' empty_patch sample_store = (Inr sample_order, w')"
    and o: "orders w' = Some t'" and ks: "map fst t' = [''ORD-001'']"
    and m: "map_of t' = map_of [(''ORD-001'', sample_order)]"
    by auto
  from ks obtain v where t': "t' = [(''ORD-001'', v)]" by (cases t') auto
  have "map_of t' ''ORD-001'' = Some sample_order" using m by simp
  then have "v = sample_order" using t' by simp
  then show ?thesis using h1 h2 h3 h4 r o t' by simp
qed

section \<open>The conversation registry: row keys and removal\<close>

lemma put_subs_fields [simp]:
  "subs (put_subs t w) = Some t" "orders (put_subs t w) = orders w"
  "sseClients (put_subs t w) = sseClients w" "sent (put_subs t w) = sent w"
  "calls (put_subs t w) = calls w" "faults (put_subs t w) = faults w"
  by (simp_all add: put_subs_def)

lemma put_subs_same: "subs w = Some t \<Longrightarrow> put_subs t w = w"
  by (cases w) (simp add: put_subs_def)

lemma subs_deleteEntity_eq:
  "subs_deleteEntity k w =
     (if failing w then (Inl StoreUnavailable, logged (DeleteEntity SUB_TABLE k) w)
      else case subs w of
             None \<Rightarrow> (Inl TableNotFound, logged (DeleteEntity SUB_TABLE k) w)
           | Some t \<Rightarrow>
               if k \<in> set (map fst t)
               then (Inr (), put_subs (filter (\<lambda>r. fst r \<noteq> k) t)
                               (logged (DeleteEntity SUB_TABLE k) w))
               else (Inl ResourceNotFound, logged (DeleteEntity SUB_TABLE k) w))"
  by (simp add: subs_deleteEntity_def table_call_def request_def with_unit_def tbl_delete_def
      split: option.splits)

lemma subs_upsertEntity_eq:
  "subs_upsertEntity k v w =
     (if failing w then (Inl StoreUnavailable, logged (UpsertEntity SUB_TABLE k) w)
      else case subs w of
             None \<Rightarrow> (Inl TableNotFound, logged (UpsertEntity SUB_TABLE k) w)
           | Some t \<Rightarrow>
               (Inr (), put_subs (tbl_upsert k v t) (logged (UpsertEntity SUB_TABLE k) w)))"
  by (simp add: subs_upsertEntity_def table_call_def request_def split: option.splits)

lemma subs_listEntities_eq:
  "subs_listEntities w =
     (if failing w then (Inl StoreUnavailable, logged (ListEntities SUB_TABLE) w)
      else case subs w of
             None \<Rightarrow> (Inl TableNotFound, logged (ListEntities SUB_TABLE) w)
           | Some t \<Rightarrow> (Inr t, logged (ListEntities SUB_TABLE) w))"
  by (simp add: subs_listEntities_def table_call_def request_def put_subs_same
      split: option.splits)

lemma failing_logged_empty [simp]:
  "faults w = [] \<Longrightarrow> \<not> failing w \<and> faults (logged c w) = []"
  by (simp add: failing_def logged_def)

lemma rowKey_of_aa_gt: "rowKey_of ''aa>'' = ''YWE_''"
  by (simp add: rowKey_of_def replace_unsafe_def base64_def b64_def b64_alphabet_def)

lemma rowKey_of_aa_qm: "rowKey_of ''aa?'' = ''YWE_''"
  by (simp add: rowKey_of_def replace_unsafe_def base64_def b64_def b64_alphabet_def)

text \<open>
  C9. The row-key encoding is not injective. The base64 texts of the conversation ids
  \<open>aa>\<close> and \<open>aa?\<close> are \<open>YWE+\<close> and \<open>YWE/\<close>, and the replacement sends both to the
  row key \<open>YWE_\<close>. Registering \<open>aa?\<close> after \<open>aa>\<close> leaves only \<open>aa?\<close> registered, and
  removing \<open>aa?\<close> deletes the registration of \<open>aa>\<close>.
\<close>

theorem rowKey_collision:
  "''aa>'' \<noteq> ''aa?''
   \<and> rowKey_of ''aa>'' = ''YWE_'' \<and> rowKey_of ''aa?'' = ''YWE_''
   \<and> fst (listConversations (snd (saveConversation ''aa?'' ''https://b''
             (snd (saveConversation ''aa>'' ''https://a'' empty_store))))) = Inr [''aa?'']
   \<and> fst (listConversations (snd (removeConversation ''aa?''
             (snd (saveConversation ''aa>'' ''https://a'' empty_store))))) = Inr []"
proof -
  have e: "faults empty_store = []" "subs empty_store = Some []"
    by (simp_all add: empty_store_def)
  have s1: "saveConversation ''aa>'' ''https://a'' empty_store =
    (Inr (), put_subs [(''YWE_'', \<lparr>conversationId = ''aa>'', serviceUrl = ''https://a''\<rparr>)]
               (logged (UpsertEntity SUB_TABLE ''YWE_'') empty_store))"
    by (simp add: Let_def saveConversation_def rowKey_of_aa_gt subs_upsertEntity_eq e
        tbl_upsert_def)
  show ?thesis
    unfolding s1
    by (simp add: Let_def rowKey_of_aa_gt rowKey_of_aa_qm saveConversation_def
        removeConversation_def listConversations_def subs_upsertEntity_eq
        subs_deleteEntity_eq subs_listEntities_eq e tbl_upsert_def)
qed

text \<open>
  C10. \<open>removeConversation\<close> resolves successfully for every conversation id and every
  state of the store, whatever the delete did (transport failure, missing table, missing
  row or success). The rows of the subscriptions table under other keys, the Orders
  table, the live sessions and the messages sent are as before.
\<close>

theorem removeConversation_never_raises:
  "fst (removeConversation cid w) = Inr ()
   \<and> other_rows (rowKey_of cid) (subs (snd (removeConversation cid w))) =
       other_rows (rowKey_of cid) (subs w)
   \<and> orders (snd (removeConversation cid w)) = orders w
   \<and> sseClients (snd (removeConversation cid w)) = sseClients w
   \<and> sent (snd (removeConversation cid w)) = sent w"
  by (simp add: removeConversation_def subs_deleteEntity_eq other_rows_def Let_def
      split: option.splits)

text \<open>An unavailable store: the delete fails and the call still resolves.\<close>

theorem removeConversation_never_raises_witness:
  "fst (subs_deleteEntity (rowKey_of ''19:abc@thread.v2'')
          (empty_store\<lparr>faults := [True]\<rparr>)) = Inl StoreUnavailable
   \<and> fst (removeConversation ''19:abc@thread.v2'' (empty_store\<lparr>faults := [True]\<rparr>)) = Inr ()"
  using removeConversation_never_raises[of "''19:abc@thread.v2''" "empty_store\<lparr>faults := [True]\<rparr>"]
  by (simp add: subs_deleteEntity_eq failing_def)

section \<open>The card action handler\<close>

lemma orderId_of_empty_iff:
  "orderId_of a = [] \<longleftrightarrow>
     (case action a of
        None \<Rightarrow> True
      | Some x \<Rightarrow> (case action_orderId x of Some (JString s) \<Rightarrow> s = [] | _ \<Rightarrow> True))"
  by (simp add: orderId_of_def split: option.splits json.splits)

text \<open>
  C8. A card action whose \<open>orderId\<close> is missing, empty or not a string, or whose verb
  is neither \<open>order.accept\<close> nor \<open>order.cancel\<close>, gets the 400 error value, and the
  state is untouched: no request is sent to the store. For a valid verb and the id of a
  stored order, with the store serving the read and the write, the response has status
  200 and carries the confirmation card of the updated order.
\<close>

theorem card_action_validation:
  "(orderId_of a = [] \<or> (verb_of a \<noteq> ''order.accept'' \<and> verb_of a \<noteq> ''order.cancel'')
      \<longrightarrow> card_action a w =
            (\<lparr>statusCode = 400, response_type = ''application/vnd.microsoft.error'',
              response_value = ErrorValue ''BadRequest'' ''Unknown action'' 400\<rparr>, w))
   \<and> (orderId_of a \<noteq> [] \<and> (verb_of a = ''order.accept'' \<or> verb_of a = ''order.cancel'')
        \<and> served 2 w \<and> orders w = Some t \<and> map_of t (orderId_of a) = Some e
      \<longrightarrow> (\<exists>w'. card_action a w =
            (\<lparr>statusCode = 200, response_type = ''application/vnd.microsoft.card.adaptive'',
              response_value = CardValue (buildConfirmedCard
                 \<lparr>customer = customer e, amount = amount e,
                  status = (if verb_of a = ''order.accept'' then Pending else Cancelled),
                  date = date e, ident = orderId_of a\<rparr>
                 (nullish (from_name a) ''Unknown''))\<rparr>, w')))
   \<and> (orderId_of a = [] \<longleftrightarrow>
        (case action a of
           None \<Rightarrow> True
         | Some x \<Rightarrow> (case action_orderId x of Some (JString s) \<Rightarrow> s = [] | _ \<Rightarrow> True)))"
proof (intro conjI impI)
  assume "orderId_of a = [] \<or> (verb_of a \<noteq> ''order.accept'' \<and> verb_of a \<noteq> ''order.cancel'')"
  then show "card_action a w =
            (\<lparr>statusCode = 400, response_type = ''application/vnd.microsoft.error'',
              response_value = ErrorValue ''BadRequest'' ''Unknown action'' 400\<rparr>, w)"
    unfolding card_action_def Let_def by (simp only: if_True)
next
  assume h: "orderId_of a \<noteq> [] \<and> (verb_of a = ''order.accept'' \<or> verb_of a = ''order.cancel'')
        \<and> served 2 w \<and> orders w = Some t \<and> map_of t (orderId_of a) = Some e"
  then have g: "\<not> (orderId_of a = [] \<or> (verb_of a \<noteq> ''order.accept'' \<and> verb_of a \<noteq> ''order.cancel''))"
    by blast
  from h have s: "served 2 w" and o: "orders w = Some t" and m: "map_of t (orderId_of a) = Some e"
    by blast+
  show "\<exists>w'. card_action a w =
            (\<lparr>statusCode = 200, response_type = ''application/vnd.microsoft.card.adaptive'',
              response_value = CardValue (buildConfirmedCard
                 \<lparr>customer = customer e, amount = amount e,
                  status = (if verb_of a = ''order.accept'' then Pending else Cancelled),
                  date = date e, ident = orderId_of a\<rparr>
                 (nullish (from_name a) ''Unknown''))\<rparr>, w')"
    unfolding card_action_def Let_def if_not_P[OF g] updateOrder_ok[OF s o m]
    by (simp add: status_patch_def nullish_def)
next
  show "orderId_of a = [] \<longleftrightarrow>
        (case action a of
           None \<Rightarrow> True
         | Some x \<Rightarrow> (case action_orderId x of Some (JString s) \<Rightarrow> s = [] | _ \<Rightarrow> True))"
    by (rule orderId_of_empty_iff)
qed


theorem card_action_validation_witness:
  "card_action \<lparr>action = Some \<lparr>action_verb = Some ''order.delete'',
                                 action_orderId = Some (JString ''ORD-001'')\<rparr>,
                 from_name = Some ''Avery''\<rparr> sample_store =
     (\<lparr>statusCode = 400, response_type = ''application/vnd.microsoft.error'',
       response_value = ErrorValue ''BadRequest'' ''Unknown action'' 400\<rparr>, sample_store)
   \<and> card_action \<lparr>action = Some \<lparr>action_verb = Some ''order.accept'',
                                   action_orderId = Some (JNumber (Num 1))\<rparr>,
                   from_name = None\<rparr> sample_store =
     (\<lparr>statusCode = 400, response_type = ''application/vnd.microsoft.error'',
       response_value = ErrorValue ''BadRequest'' ''Unknown action'' 400\<rparr>, sample_store)
   \<and> fst (card_action \<lparr>action = Some \<lparr>action_verb = Some ''order.accept'',
                                        action_orderId = Some (JString ''ORD-001'')\<rparr>,
                        from_name = Some ''Avery''\<rparr> sample_store) =
       \<lparr>statusCode = 200, response_type = ''application/vnd.microsoft.card.adaptive'',
        response_value = CardValue (buildConfirmedCard
          \<lparr>customer = ''Contoso Ltd.'', amount = Num 42.5, status = Pending,
           date = ''2026-02-24'', ident = ''ORD-001''\<rparr> ''Avery'')\<rparr>"
proof -
  let ?bad = "\<lparr>action = Some \<lparr>action_verb = Some ''order.delete'',
                                 action_orderId = Some (JString ''ORD-001'')\<rparr>,
                 from_name = Some ''Avery''\<rparr>"
  let ?num = "\<lparr>action = Some \<lparr>action_verb = Some ''order.accept'',
                                   action_orderId = Some (JNumber (Num 1))\<rparr>,
                   from_name = None\<rparr>"
  let ?good = "\<lparr>action = Some \<lparr>action_verb = Some ''order.accept'',
                                        action_orderId = Some (JString ''ORD-001'')\<rparr>,
                        from_name = Some ''Avery''\<rparr>"
  have b: "verb_of ?bad \<noteq> ''order.accept'' \<and> verb_of ?bad \<noteq> ''order.cancel''"
    by (simp add: verb_of_def nullish_def)
  have n: "orderId_of ?num = []" by (simp add: orderId_of_def)
  have g: "orderId_of ?good = ''ORD-001''" "verb_of ?good = ''order.accept''"
    by (simp_all add: orderId_of_def verb_of_def nullish_def)
  have h: "served 2 sample_store" "orders sample_store = Some [(''ORD-001'', sample_order)]"
    "map_of [(''ORD-001'', sample_order)] (orderId_of ?good) = Some sample_order"
    by (simp_all add: served_sample_store g) (simp add: sample_store_def)
  have 1: "card_action ?bad sample_store =
     (\<lparr>statusCode = 400, response_type = ''application/vnd.microsoft.error'',
       response_value = ErrorValue ''BadRequest'' ''Unknown action'' 400\<rparr>, sample_store)"
    using card_action_validation[of ?bad sample_store] b by blast
  have 2: "card_action ?num sample_store =
     (\<lparr>statusCode = 400, response_type = ''application/vnd.microsoft.error'',
       response_value = ErrorValue ''BadRequest'' ''Unknown action'' 400\<rparr>, sample_store)"
    using card_action_validation[of ?num sample_store] n by blast
  have "\<exists>w'. card_action ?good sample_store =
            (\<lparr>statusCode = 200, response_type = ''application/vnd.microsoft.card.adaptive'',
              response_value = CardValue (buildConfirmedCard
                 \<lparr>customer = customer sample_order, amount = amount sample_order,
                  status = (if verb_of ?good = ''order.accept'' then Pending else Cancelled),
                  date = date sample_order, ident = orderId_of ?good\<rparr>
                 (nullish (from_name ?good) ''Unknown''))\<rparr>, w')"
    using card_action_validation[of ?good sample_store "[(''ORD-001'', sample_order)]" sample_order]
      h g by simp
  then obtain w' where "card_action ?good sample_store =
            (\<lparr>statusCode = 200, response_type = ''application/vnd.microsoft.card.adaptive'',
              response_value = CardValue (buildConfirmedCard
                 \<lparr>customer = customer sample_order, amount = amount sample_order,
                  status = (if verb_of ?good = ''order.accept'' then Pending else Cancelled),
                  date = date sample_order, ident = orderId_of ?good\<rparr>
                 (nullish (from_name ?good) ''Unknown''))\<rparr>, w')" ..
  then have 3: "fst (card_action ?good sample_store) = \<lparr>statusCode = 200, response_type = ''application/vnd.microsoft.card.adaptive'',
        response_value = CardValue (buildConfirmedCard
          \<lparr>customer = ''Contoso Ltd.'', amount = Num 42.5, status = Pending,
           date = ''2026-02-24'', ident = ''ORD-001''\<rparr> ''Avery'')\<rparr>"
    by (simp add: g nullish_def sample_order_def)
  from 1 2 3 show ?thesis by blast
qed

section \<open>Order ids: printing, matching, and the doubles of the scan\<close>

lemma decimal_value_snoc: "decimal_value (xs @ [c]) = decimal_value xs * 10 + ((of_char c :: nat) - 48)"
  by (simp add: decimal_value_def)

lemma decimal_value_append: "decimal_value (xs @ ys) = foldl (\<lambda>a c. a * 10 + ((of_char c :: nat) - 48)) (decimal_value xs) ys"
  by (simp add: decimal_value_def)

lemma of_char_digit: "n < 10 \<Longrightarrow> (of_char (char_of (48 + n)) :: nat) = 48 + n"
  by simp

lemma decimal_value_string_of_nat: "decimal_value (string_of_nat n) = n"
proof (induction n rule: string_of_nat.induct)
  case (1 n)
  show ?case
  proof (cases "n < 10")
    case True
    then show ?thesis by (simp add: string_of_nat.simps[of n] decimal_value_def)
  next
    case False
    have "n mod 10 < 10" by simp
    then have d: "(of_char (char_of (48 + n mod 10)) :: nat) = 48 + n mod 10"
      by (rule of_char_digit)
    from False 1 have "decimal_value (string_of_nat (n div 10)) = n div 10" by simp
    with False d show ?thesis
      by (simp add: string_of_nat.simps[of n] decimal_value_snoc)
  qed
qed

lemma is_digit_char_of: "(n::nat) < 10 \<Longrightarrow> is_digit (char_of (48 + n))"
  by (simp add: is_digit_def)

lemma digits_string_of_nat: "list_all is_digit (string_of_nat n)"
proof (induction n rule: string_of_nat.induct)
  case (1 n)
  show ?case
  proof (cases "n < 10")
    case True
    then show ?thesis by (simp add: string_of_nat.simps[of n] is_digit_char_of)
  next
    case False
    have "is_digit (char_of (48 + n mod 10))" by (rule is_digit_char_of) simp
    with False 1 show ?thesis by (simp add: string_of_nat.simps[of n])
  qed
qed

lemma string_of_nat_nonempty: "string_of_nat n \<noteq> []"
  by (subst string_of_nat.simps) simp

lemma padStart_zero: "padStart n ''0'' s = replicate (n - length s) (CHR ''0'') @ s"
proof -
  have "concat (replicate k ''0'') = replicate k (CHR ''0'')" for k
    by (induction k) simp_all
  then show ?thesis by (simp add: padStart_def)
qed

lemma decimal_value_zeros: "decimal_value (replicate k (CHR ''0'') @ s) = decimal_value s"
proof (induction k)
  case 0
  show ?case by simp
next
  case (Suc k)
  have "decimal_value (CHR ''0'' # xs) = decimal_value xs" for xs
    by (simp add: decimal_value_def)
  with Suc show ?case by simp
qed

lemma is_digit_zero: "is_digit (CHR ''0'')"
  by (simp add: is_digit_def)

lemma drop4_order_id: "drop 4 (order_id n) = padStart 3 ''0'' (string_of_nat n)"
  by (simp add: order_id_def)

lemma match_ord_order_id: "match_ord (order_id n) = Some (padStart 3 ''0'' (string_of_nat n))"
proof -
  have "list_all is_digit (padStart 3 ''0'' (string_of_nat n))"
    using digits_string_of_nat[of n]
    by (auto simp: padStart_zero is_digit_zero list_all_iff)
  moreover have "padStart 3 ''0'' (string_of_nat n) \<noteq> []"
    by (simp add: padStart_zero string_of_nat_nonempty)
  moreover have "take 4 (order_id n) = ''ORD-''" by (simp add: order_id_def)
  ultimately show ?thesis by (simp add: match_ord_def drop4_order_id)
qed

lemma decimal_value_order_id: "decimal_value (padStart 3 ''0'' (string_of_nat n)) = n"
  by (simp add: padStart_zero decimal_value_zeros decimal_value_string_of_nat)

lemma order_id_inj: "order_id m = order_id n \<Longrightarrow> m = n"
proof -
  assume "order_id m = order_id n"
  then have "decimal_value (drop 4 (order_id m)) = decimal_value (drop 4 (order_id n))" by simp
  then show "m = n" by (simp only: drop4_order_id decimal_value_order_id)
qed


lemma match_ord_Some: "match_ord k = Some ds \<Longrightarrow> ds = drop 4 k"
  by (simp add: match_ord_def split: if_splits)

subsection \<open>The largest suffix, as an integer\<close>

lemma max_suffix_snoc:
  "max_suffix (ks @ [k]) =
     (case match_ord k of
        Some ds \<Rightarrow> max (max_suffix ks) (decimal_value ds)
      | None \<Rightarrow> max_suffix ks)"
proof -
  let ?S = "\<lambda>ks. (\<lambda>k. decimal_value (drop 4 k)) ` {k \<in> set ks. match_ord k \<noteq> None}"
  show ?thesis
  proof (cases "match_ord k")
    case None
    then have "?S (ks @ [k]) = ?S ks" by auto
    with None show ?thesis by (simp add: max_suffix_def)
  next
    case (Some ds)
    then have ds: "ds = drop 4 k" by (rule match_ord_Some)
    have "{k' \<in> set (ks @ [k]). match_ord k' \<noteq> None} =
            insert k {k' \<in> set ks. match_ord k' \<noteq> None}"
      using Some by auto
    then have S: "?S (ks @ [k]) = insert (decimal_value ds) (?S ks)" by (simp add: ds)
    have fin: "finite (insert 0 (?S ks))" by simp
    have "Max (insert 0 (?S (ks @ [k]))) = Max (insert (decimal_value ds) (insert 0 (?S ks)))"
      by (simp only: S insert_commute)
    also have "\<dots> = max (decimal_value ds) (Max (insert 0 (?S ks)))"
      using fin by (rule Max_insert) simp
    finally show ?thesis
      using Some by (simp add: max_suffix_def max.commute)
  qed
qed

lemma max_suffix_Nil: "max_suffix [] = 0"
  by (simp add: max_suffix_def)

lemma max_suffix_ge:
  "k \<in> set ks \<Longrightarrow> match_ord k = Some ds \<Longrightarrow> decimal_value ds \<le> max_suffix ks"
proof -
  assume k: "k \<in> set ks" and m: "match_ord k = Some ds"
  from m have ds: "ds = drop 4 k" by (rule match_ord_Some)
  have "decimal_value (drop 4 k) \<in>
          insert 0 ((\<lambda>k. decimal_value (drop 4 k)) ` {k \<in> set ks. match_ord k \<noteq> None})"
    using k m by auto
  then have "decimal_value (drop 4 k) \<le> max_suffix ks"
    unfolding max_suffix_def by (intro Max_ge) simp_all
  then show ?thesis by (simp add: ds)
qed

lemma next_id_fresh: "order_id (max_suffix ks + 1) \<notin> set ks"
proof
  assume "order_id (max_suffix ks + 1) \<in> set ks"
  from max_suffix_ge[OF this match_ord_order_id]
  show False by (simp add: decimal_value_order_id)
qed

lemma max_suffix_order_ids: "max_suffix (map order_id [1..<Suc n]) = n"
proof (induction n)
  case 0
  show ?case by (simp add: max_suffix_def)
next
  case (Suc n)
  have "map order_id [1..<Suc (Suc n)] = map order_id [1..<Suc n] @ [order_id (Suc n)]"
    by simp
  then have "max_suffix (map order_id [1..<Suc (Suc n)]) =
               max (max_suffix (map order_id [1..<Suc n])) (Suc n)"
    by (simp only: max_suffix_snoc match_ord_order_id option.case decimal_value_order_id)
  with Suc show ?case by simp
qed

subsection \<open>Doubles: exact up to \<open>2^53\<close>\<close>

lemma bitlen_0: "bitlen 0 = 0"
  by (subst bitlen.simps) simp

lemma bitlen_le: "n < 2 ^ k \<Longrightarrow> bitlen n \<le> k"
proof (induction k arbitrary: n)
  case 0
  then show ?case by (simp add: bitlen_0)
next
  case (Suc k)
  show ?case
  proof (cases "n = 0")
    case True
    then show ?thesis by (simp add: bitlen_0)
  next
    case False
    from Suc.prems have "n div 2 < 2 ^ k" by simp
    then have "bitlen (n div 2) \<le> k" by (rule Suc.IH)
    with False show ?thesis by (simp add: bitlen.simps[of n])
  qed
qed

lemma bitlen_gt: "2 ^ k \<le> n \<Longrightarrow> k < bitlen n"
proof (induction k arbitrary: n)
  case 0
  then show ?case by (simp add: bitlen.simps[of n])
next
  case (Suc k)
  have "0 < (2::nat) ^ Suc k" by simp
  with Suc.prems have n: "n \<noteq> 0" by linarith
  from Suc.prems have "2 ^ k \<le> n div 2" by simp
  then have "k < bitlen (n div 2)" by (rule Suc.IH)
  with n show ?case by (simp add: bitlen.simps[of n])
qed

lemma bitlen_eq: "2 ^ k \<le> n \<Longrightarrow> n < 2 ^ Suc k \<Longrightarrow> bitlen n = Suc k"
  using bitlen_le[of n "Suc k"] bitlen_gt[of k n] by simp

lemma round53_small: "n < 2 ^ 53 \<Longrightarrow> round53 n = n"
  using bitlen_le[of n 53] by (simp add: round53_def)

lemma round53_54_bits:
  assumes "2 ^ 53 \<le> n" and "n < 2 ^ 54"
  shows "round53 n = (if even n \<or> even (n div 2) then n div 2 else n div 2 + 1) * 2"
proof -
  have b: "bitlen n = Suc 53" using assms by (intro bitlen_eq) simp_all
  have "n mod 2 = 0 \<or> n mod 2 = 1" by presburger
  then show ?thesis
  proof
    assume "n mod 2 = 0"
    then show ?thesis by (simp add: round53_def Let_def b even_iff_mod_2_eq_zero)
  next
    assume "n mod 2 = 1"
    then show ?thesis by (simp add: round53_def Let_def b even_iff_mod_2_eq_zero)
  qed
qed

lemma round53_2_53: "round53 9007199254740992 = 9007199254740992"
  by (subst round53_54_bits) simp_all

lemma round53_2_53_1: "round53 9007199254740993 = 9007199254740992"
  by (subst round53_54_bits) simp_all

lemma round53_le: "n \<le> 2 ^ 53 \<Longrightarrow> round53 n = n"
proof (cases "n < 2 ^ 53")
  case True
  then show ?thesis by (rule round53_small)
next
  case False
  assume "n \<le> 2 ^ 53"
  with False have "n = 9007199254740992" by simp
  then show ?thesis by (simp only: round53_2_53)
qed

lemma to_double_le: "n \<le> 2 ^ 53 \<Longrightarrow> to_double n = Val n"
proof -
  assume n: "n \<le> 2 ^ 53"
  have "(2::nat) ^ 53 < 2 ^ 1024" by (rule power_strict_increasing) simp_all
  with n have "n < 2 ^ 1024" by (rule le_less_trans)
  with n show ?thesis by (simp only: to_double_def round53_le if_True)
qed

lemma parseInt_exact: "decimal_value ds \<le> 2 ^ 53 \<Longrightarrow> parseInt ds = Val (decimal_value ds)"
  by (simp only: parseInt_def to_double_le)

lemma plus_one_exact: "n < 2 ^ 53 \<Longrightarrow> plus_one (Val n) = Val (n + 1)"
proof -
  assume "n < 2 ^ 53"
  then have "n + 1 \<le> 2 ^ 53" by simp
  then show ?thesis by (simp only: plus_one.simps to_double_le)
qed

lemma String_num_exact: "n \<le> 2 ^ 53 \<Longrightarrow> String_num (Val n) = string_of_nat n"
  by (simp add: String_num_def)

text \<open>Below \<open>2^53\<close> the id that \<open>createOrder\<close> forms is the id of the next integer.\<close>

lemma new_order_id_exact: "n < 2 ^ 53 \<Longrightarrow> new_order_id (Val n) = order_id (n + 1)"
proof -
  assume n: "n < 2 ^ 53"
  then have "n + 1 \<le> 2 ^ 53" by simp
  then have "String_num (Val (n + 1)) = string_of_nat (n + 1)" by (rule String_num_exact)
  with n show ?thesis by (simp only: new_order_id_def plus_one_exact order_id_def)
qed

subsection \<open>The scan\<close>

lemma scan_max_snoc:
  "scan_max (ks @ [k]) =
     (case match_ord k of
        Some ds \<Rightarrow> Math_max (scan_max ks) (parseInt ds)
      | None \<Rightarrow> scan_max ks)"
  by (simp add: scan_max_def split: option.splits)

lemma scan_max_Nil: "scan_max [] = Val 0"
  by (simp add: scan_max_def)

text \<open>While every suffix is at most \<open>2^53\<close> the scan computes the largest suffix.\<close>

lemma scan_max_exact: "max_suffix ks \<le> 2 ^ 53 \<Longrightarrow> scan_max ks = Val (max_suffix ks)"
proof (induction ks rule: rev_induct)
  case Nil
  show ?case by (simp only: scan_max_Nil max_suffix_Nil)
next
  case (snoc k ks)
  show ?case
  proof (cases "match_ord k")
    case None
    with snoc show ?thesis by (simp add: scan_max_snoc max_suffix_snoc)
  next
    case (Some ds)
    from snoc.prems Some have b: "max_suffix ks \<le> 2 ^ 53" and d: "decimal_value ds \<le> 2 ^ 53"
      by (simp_all add: max_suffix_snoc)
    from snoc.IH[OF b] parseInt_exact[OF d] Some show ?thesis
      by (simp add: scan_max_snoc max_suffix_snoc)
  qed
qed

lemma new_order_id_scan:
  "max_suffix ks < 2 ^ 53 \<Longrightarrow> new_order_id (scan_max ks) = order_id (max_suffix ks + 1)"
proof -
  assume m: "max_suffix ks < 2 ^ 53"
  then have "max_suffix ks \<le> 2 ^ 53" by simp
  then have "scan_max ks = Val (max_suffix ks)" by (rule scan_max_exact)
  with m show ?thesis by (simp only: new_order_id_exact)
qed

section \<open>createOrder: the insert and the notification\<close>

lemma orders_listEntities_eq:
  "orders_listEntities w =
     (if failing w then (Inl StoreUnavailable, logged (ListEntities TABLE_NAME) w)
      else case orders w of
             None \<Rightarrow> (Inl TableNotFound, logged (ListEntities TABLE_NAME) w)
           | Some t \<Rightarrow> (Inr t, logged (ListEntities TABLE_NAME) w))"
  by (simp add: orders_listEntities_def table_call_def request_def put_orders_same
      split: option.splits)

lemma orders_createEntity_eq:
  "orders_createEntity k v w =
     (if failing w then (Inl StoreUnavailable, logged (CreateEntity TABLE_NAME k) w)
      else case orders w of
             None \<Rightarrow> (Inl TableNotFound, logged (CreateEntity TABLE_NAME k) w)
           | Some t \<Rightarrow>
               if k \<in> set (map fst t)
               then (Inl EntityAlreadyExists, logged (CreateEntity TABLE_NAME k) w)
               else (Inr (), put_orders (t @ [(k, v)]) (logged (CreateEntity TABLE_NAME k) w)))"
  by (simp add: orders_createEntity_def table_call_def request_def with_unit_def tbl_create_def
      split: option.splits)

lemma orders_listEntities_frame:
  "orders_listEntities w = (r, w') \<Longrightarrow>
   sseClients w' = sseClients w \<and> sent w' = sent w \<and> subs w' = subs w \<and> orders w' = orders w"
  by (auto simp: orders_listEntities_eq split: if_splits option.splits)

lemma orders_createEntity_frame:
  "orders_createEntity k v w = (r, w') \<Longrightarrow>
   sseClients w' = sseClients w \<and> sent w' = sent w \<and> subs w' = subs w"
  by (auto simp: orders_createEntity_eq split: if_splits option.splits)

lemma order_data_Submitted:
  "status data = Submitted \<Longrightarrow>
   \<lparr>customer = customer data, amount = Number (amount data), status = Submitted,
    date = date data\<rparr> = data"
  by (cases data) (simp add: Number_def)

text \<open>
  C7. Let the listing of \<open>createOrder\<close> succeed and let \<open>r\<close> be the outcome of its
  insert. If the insert fails with an error, \<open>createOrder\<close> returns that error and the
  state is the one the failed insert left, whatever the callback is: the callback is not
  run, the live sessions and the messages sent are those from before the call, and the
  POST handler answers 500 with the error. If the insert succeeds, the created order is
  returned and the callback, when there is one, is run once on it, on the state the
  insert left.
\<close>

theorem createOrder_insert_outcome:
  assumes "orders_listEntities w = (Inr rows, w1)"
    and "oid = new_order_id (scan_max (map fst rows))"
    and "orders_createEntity oid
           \<lparr>customer = customer data, amount = amount data, status = status data,
            date = date data, ident = oid\<rparr> w1 = (r, w2)"
  shows "(\<forall>e. r = Inl e \<longrightarrow>
            createOrder data notify w = (Inl e, w2)
            \<and> sseClients w2 = sseClients w \<and> sent w2 = sent w
            \<and> (status data = Submitted \<longrightarrow>
                 post_orders (customer data) (amount data) (date data) w =
                   (\<lparr>http_status = 500, http_json = ErrorJson (error_text e)\<rparr>, w2)))
       \<and> (\<forall>u. r = Inr u \<longrightarrow>
            createOrder data None w =
              (Inr \<lparr>customer = customer data, amount = amount data, status = status data,
                    date = date data, ident = oid\<rparr>, w2)
            \<and> (\<forall>f. createOrder data (Some f) w =
              (Inr \<lparr>customer = customer data, amount = amount data, status = status data,
                    date = date data, ident = oid\<rparr>,
               f \<lparr>customer = customer data, amount = amount data, status = status data,
                  date = date data, ident = oid\<rparr> w2)))"
proof -
  have fail: "createOrder data n w = (Inl e, w2)" if "r = Inl e" for e n
    using assms(1) assms(3)[unfolded assms(2)] that
    by (simp add: createOrder_def Let_def)
  have fr: "sseClients w2 = sseClients w \<and> sent w2 = sent w"
    using orders_listEntities_frame[OF assms(1)] orders_createEntity_frame[OF assms(3)] by simp
  have post: "post_orders (customer data) (amount data) (date data) w =
                   (\<lparr>http_status = 500, http_json = ErrorJson (error_text e)\<rparr>, w2)"
    if "r = Inl e" "status data = Submitted" for e
    using fail[OF that(1), of "Some broadcastNewOrder"] order_data_Submitted[OF that(2)]
    by (simp add: post_orders_def)
  have ok: "createOrder data n w =
              (Inr \<lparr>customer = customer data, amount = amount data, status = status data,
                    date = date data, ident = oid\<rparr>,
               case n of None \<Rightarrow> w2 | Some f \<Rightarrow> f \<lparr>customer = customer data, amount = amount data, status = status data,
                  date = date data, ident = oid\<rparr> w2)" if "r = Inr u" for u n
    using assms(1) assms(3)[unfolded assms(2)] that unfolding assms(2)
    by (simp add: createOrder_def Let_def Number_def split: option.splits)
  show ?thesis
  proof (intro conjI allI impI)
    fix e assume "r = Inl e"
    then show "createOrder data notify w = (Inl e, w2)" by (rule fail)
  next
    show "sseClients w2 = sseClients w" using fr by simp
  next
    show "sent w2 = sent w" using fr by simp
  next
    fix e assume "r = Inl e" "status data = Submitted"
    then show "post_orders (customer data) (amount data) (date data) w =
                   (\<lparr>http_status = 500, http_json = ErrorJson (error_text e)\<rparr>, w2)"
      by (rule post)
  next
    fix u assume "r = Inr u"
    from ok[OF this, of None] show "createOrder data None w =
              (Inr \<lparr>customer = customer data, amount = amount data, status = status data,
                    date = date data, ident = oid\<rparr>, w2)" by simp
  next
    fix u f assume "r = Inr u"
    from ok[OF this, of "Some f"] show "createOrder data (Some f) w =
              (Inr \<lparr>customer = customer data, amount = amount data, status = status data,
                    date = date data, ident = oid\<rparr>,
               f \<lparr>customer = customer data, amount = amount data, status = status data,
                  date = date data, ident = oid\<rparr> w2)" by simp
  qed
qed



lemma next_id_after_one:
  "new_order_id (scan_max (map fst [(''ORD-001'', sample_order)])) = ''ORD-002''"
proof -
  have k: "map fst [(''ORD-001'', sample_order)] = map order_id [1..<Suc 1]" by code_simp
  have m: "max_suffix (map fst [(''ORD-001'', sample_order)]) = 1"
    by (simp only: k max_suffix_order_ids)
  have "max_suffix (map fst [(''ORD-001'', sample_order)]) < 2 ^ 53" by (simp only: m) simp
  then have "new_order_id (scan_max (map fst [(''ORD-001'', sample_order)])) = order_id (1 + 1)"
    by (simp only: new_order_id_scan m)
  also have "order_id (1 + 1) = ''ORD-002''" by code_simp
  finally show ?thesis .
qed

theorem createOrder_insert_outcome_witness:
  "fst (orders_listEntities (sample_store\<lparr>faults := [False, True]\<rparr>)) =
      Inr [(''ORD-001'', sample_order)]
   \<and> fst (createOrder \<lparr>customer = ''Fabrikam Inc.'', amount = Num 10, status = Submitted,
                        date = ''2026-03-01''\<rparr> (Some broadcastNewOrder)
             (sample_store\<lparr>faults := [False, True]\<rparr>)) = Inl StoreUnavailable
   \<and> sseClients (snd (createOrder \<lparr>customer = ''Fabrikam Inc.'', amount = Num 10,
                                    status = Submitted, date = ''2026-03-01''\<rparr>
                         (Some broadcastNewOrder) (sample_store\<lparr>faults := [False, True]\<rparr>))) =
       [\<lparr>writableEnded = False, written = []\<rparr>]
   \<and> fst (post_orders ''Fabrikam Inc.'' (Num 10) ''2026-03-01''
             (sample_store\<lparr>faults := [False, True]\<rparr>)) =
       \<lparr>http_status = 500, http_json = ErrorJson ''StoreUnavailable''\<rparr>
   \<and> fst (createOrder \<lparr>customer = ''Fabrikam Inc.'', amount = Num 10, status = Submitted,
                        date = ''2026-03-01''\<rparr> (Some broadcastNewOrder) sample_store) =
       Inr \<lparr>customer = ''Fabrikam Inc.'', amount = Num 10, status = Submitted,
            date = ''2026-03-01'', ident = ''ORD-002''\<rparr>
   \<and> sseClients (snd (createOrder \<lparr>customer = ''Fabrikam Inc.'', amount = Num 10,
                                    status = Submitted, date = ''2026-03-01''\<rparr>
                         (Some broadcastNewOrder) sample_store)) =
       [\<lparr>writableEnded = False,
         written = [NewOrderEvent \<lparr>customer = ''Fabrikam Inc.'', amount = Num 10,
                                   status = Submitted, date = ''2026-03-01'',
                                   ident = ''ORD-002''\<rparr>]\<rparr>]"
proof -
  let ?wf = "sample_store\<lparr>faults := [False, True]\<rparr>"
  let ?d = "\<lparr>customer = ''Fabrikam Inc.'', amount = Num 10, status = Submitted,
             date = ''2026-03-01''\<rparr>"
  let ?o = "\<lparr>customer = ''Fabrikam Inc.'', amount = Num 10, status = Submitted,
             date = ''2026-03-01'', ident = ''ORD-002''\<rparr>"
  let ?rows = "[(''ORD-001'', sample_order)]"
  have f: "\<not> failing ?wf" "orders ?wf = Some ?rows" "\<not> failing sample_store"
    "orders sample_store = Some ?rows"
    by (simp_all add: failing_def sample_store_def)
  have l1: "orders_listEntities ?wf = (Inr ?rows, logged (ListEntities TABLE_NAME) ?wf)"
    by (simp add: orders_listEntities_eq f)
  have l2: "orders_listEntities sample_store =
              (Inr ?rows, logged (ListEntities TABLE_NAME) sample_store)"
    by (simp add: orders_listEntities_eq f)
  have i: "''ORD-002'' = new_order_id (scan_max (map fst ?rows))"
    by (simp only: next_id_after_one)
  have c1: "orders_createEntity ''ORD-002'' \<lparr>customer = customer ?d, amount = amount ?d, status = status ?d,
            date = date ?d, ident = ''ORD-002''\<rparr> (logged (ListEntities TABLE_NAME) ?wf) =
              (Inl StoreUnavailable,
               logged (CreateEntity TABLE_NAME ''ORD-002'') (logged (ListEntities TABLE_NAME) ?wf))"
    by (simp add: orders_createEntity_eq failing_def logged_def sample_store_def)
  have c2: "orders_createEntity ''ORD-002'' \<lparr>customer = customer ?d, amount = amount ?d, status = status ?d,
            date = date ?d, ident = ''ORD-002''\<rparr> (logged (ListEntities TABLE_NAME) sample_store) =
              (Inr (), put_orders (?rows @ [(''ORD-002'', ?o)])
                 (logged (CreateEntity TABLE_NAME ''ORD-002'')
                    (logged (ListEntities TABLE_NAME) sample_store)))"
    by (simp add: orders_createEntity_eq failing_def logged_def sample_store_def)
  note t1 = createOrder_insert_outcome[OF l1 i c1, where notify = "Some broadcastNewOrder"]
  note t2 = createOrder_insert_outcome[OF l2 i c2, where notify = "Some broadcastNewOrder"]
  have a: "createOrder ?d (Some broadcastNewOrder) ?wf =
             (Inl StoreUnavailable,
              logged (CreateEntity TABLE_NAME ''ORD-002'') (logged (ListEntities TABLE_NAME) ?wf))"
    using t1 by simp
  have p: "post_orders ''Fabrikam Inc.'' (Num 10) ''2026-03-01'' ?wf =
             (\<lparr>http_status = 500, http_json = ErrorJson ''StoreUnavailable''\<rparr>,
              logged (CreateEntity TABLE_NAME ''ORD-002'') (logged (ListEntities TABLE_NAME) ?wf))"
    using t1 by simp
  have b: "createOrder ?d (Some broadcastNewOrder) sample_store =
             (Inr ?o, broadcastNewOrder ?o (put_orders (?rows @ [(''ORD-002'', ?o)])
                 (logged (CreateEntity TABLE_NAME ''ORD-002'')
                    (logged (ListEntities TABLE_NAME) sample_store))))"
    using t2 by simp
  have s: "sseClients (broadcastNewOrder ?o (put_orders (?rows @ [(''ORD-002'', ?o)])
                 (logged (CreateEntity TABLE_NAME ''ORD-002'')
                    (logged (ListEntities TABLE_NAME) sample_store)))) =
           [\<lparr>writableEnded = False, written = [NewOrderEvent ?o]\<rparr>]"
    by (simp add: broadcastNewOrder_def Let_def sse_write_def listConversations_def
        subs_listEntities_eq sample_store_def split: if_splits option.splits)
  have x: "sseClients (logged (CreateEntity TABLE_NAME ''ORD-002'')
               (logged (ListEntities TABLE_NAME) ?wf)) =
           [\<lparr>writableEnded = False, written = []\<rparr>]"
    by (simp add: sample_store_def)
  show ?thesis
    by (simp only: l1 a p b s x fst_conv snd_conv simp_thms)
qed

section \<open>createOrder: sequential ids\<close>

lemma served_two:
  "served (Suc (Suc n)) w \<Longrightarrow>
   \<not> failing w \<and> \<not> failing (logged c w) \<and> served n (logged c' (logged c w))"
  using served_Suc[of "Suc n" w c] served_Suc[of n "logged c w" c'] by simp

text \<open>
  One call of \<open>createOrder\<close> that the store serves, on a table whose suffixes are below
  \<open>2^53\<close>, succeeds with the id of the next integer.
\<close>

lemma createOrder_ok:
  assumes "served 2 w" and "orders w = Some t" and "max_suffix (map fst t) < 2 ^ 53"
  shows "createOrder d notify w =
    (let oid = order_id (max_suffix (map fst t) + 1);
         w2 = put_orders (t @ [(oid, \<lparr>customer = customer d, amount = amount d,
                                      status = status d, date = date d, ident = oid\<rparr>)])
                (logged (CreateEntity TABLE_NAME oid) (logged (ListEntities TABLE_NAME) w));
         order = \<lparr>customer = customer d, amount = amount d, status = status d,
                  date = date d, ident = oid\<rparr>
     in (Inr order, case notify of None \<Rightarrow> w2 | Some f \<Rightarrow> f order w2))"
proof -
  let ?oid = "order_id (max_suffix (map fst t) + 1)"
  have s2: "served (Suc (Suc 0)) w" using assms(1) by (simp add: numeral_2_eq_2)
  from served_two[OF s2] have nf: "\<not> failing w"
    and nf1: "\<not> failing (logged (ListEntities TABLE_NAME) w)" by auto
  have l: "orders_listEntities w = (Inr t, logged (ListEntities TABLE_NAME) w)"
    by (simp add: orders_listEntities_eq nf assms(2))
  have n: "new_order_id (scan_max (map fst t)) = ?oid"
    using assms(3) by (rule new_order_id_scan)
  have fresh: "?oid \<notin> set (map fst t)"
    by (rule next_id_fresh)
  have c: "orders_createEntity ?oid v (logged (ListEntities TABLE_NAME) w) =
     (Inr (), put_orders (t @ [(?oid, v)])
        (logged (CreateEntity TABLE_NAME ?oid) (logged (ListEntities TABLE_NAME) w)))" for v
    using fresh by (simp add: orders_createEntity_eq nf1 assms(2))
  show ?thesis
    unfolding createOrder_def l
    by (simp only: prod.case sum.case Let_def n c Number_def split: option.splits)
qed

lemma create_all_from:
  assumes "orders w = Some t" and "map fst t = map order_id [1..<Suc k]"
    and "served (2 * length ds) w" and "k + length ds \<le> 2 ^ 53"
  shows "\<exists>w' t'. create_all ds w =
           (map (\<lambda>(i, d). Inr \<lparr>customer = customer d, amount = amount d, status = status d,
                               date = date d, ident = order_id i\<rparr>)
              (zip [Suc k..<Suc (k + length ds)] ds), w')
         \<and> orders w' = Some t'
         \<and> map fst t' = map order_id [1..<Suc (k + length ds)]"
  using assms
proof (induction ds arbitrary: w t k)
  case Nil
  then show ?case by simp
next
  case (Cons d ds)
  let ?oid = "order_id (Suc k)"
  let ?e = "\<lparr>customer = customer d, amount = amount d, status = status d,
             date = date d, ident = ?oid\<rparr>"
  let ?w2 = "put_orders (t @ [(?oid, ?e)])
                (logged (CreateEntity TABLE_NAME ?oid) (logged (ListEntities TABLE_NAME) w))"
  have sv: "served (Suc (Suc (2 * length ds))) w" using Cons.prems(3) by simp
  have s2: "served 2 w" using sv by (rule served_mono) simp
  have sm: "max_suffix (map fst t) = k" by (simp only: Cons.prems(2) max_suffix_order_ids)
  have kb: "max_suffix (map fst t) < 2 ^ 53" using Cons.prems(4) by (simp add: sm)
  have step: "createOrder d None w = (Inr ?e, ?w2)"
    by (simp add: createOrder_ok[OF s2 Cons.prems(1) kb] Let_def sm)
  have o2: "orders ?w2 = Some (t @ [(?oid, ?e)])" by simp
  have k2: "map fst (t @ [(?oid, ?e)]) = map order_id [1..<Suc (Suc k)]"
    by (simp add: Cons.prems(2))
  have s3: "served (2 * length ds) ?w2"
    using served_two[OF sv, of "ListEntities TABLE_NAME" "CreateEntity TABLE_NAME ?oid"] by simp
  have b3: "Suc k + length ds \<le> 2 ^ 53" using Cons.prems(4) by simp
  from Cons.IH[OF o2 k2 s3 b3] obtain w' t' where
    r: "create_all ds ?w2 =
           (map (\<lambda>(i, d). Inr \<lparr>customer = customer d, amount = amount d, status = status d,
                               date = date d, ident = order_id i\<rparr>)
              (zip [Suc (Suc k)..<Suc (Suc k + length ds)] ds), w')"
    and o: "orders w' = Some t'"
    and ks: "map fst t' = map order_id [1..<Suc (Suc k + length ds)]"
    by blast
  have "Suc k < Suc (k + length (d # ds))" by simp
  then have "[Suc k..<Suc (k + length (d # ds))] = Suc k # [Suc (Suc k)..<Suc (k + length (d # ds))]"
    by (rule upt_conv_Cons)
  then have up: "[Suc k..<Suc (k + length (d # ds))] = Suc k # [Suc (Suc k)..<Suc (Suc k + length ds)]"
    by simp
  have "create_all (d # ds) w =
           (map (\<lambda>(i, d). Inr \<lparr>customer = customer d, amount = amount d, status = status d,
                               date = date d, ident = order_id i\<rparr>)
              (zip [Suc k..<Suc (k + length (d # ds))] (d # ds)), w')"
    unfolding up by (simp add: step r)
  moreover have "map fst t' = map order_id [1..<Suc (k + length (d # ds))]"
    using ks by simp
  ultimately show ?case using o by blast
qed

lemma distinct_order_ids: "distinct (map order_id [1..<Suc n])"
  by (simp add: distinct_map inj_on_def) (blast dest: order_id_inj)


lemma createOrder_assigns:
  assumes "orders v = Some t" and "max_suffix (map fst t) < 2 ^ 53"
    and "createOrder d notify v = (Inr order, v')"
  shows "ident order = order_id (max_suffix (map fst t) + 1)"
proof (cases "failing v")
  case True
  then show ?thesis using assms(3) by (simp add: createOrder_def orders_listEntities_eq)
next
  case False
  then have l: "orders_listEntities v = (Inr t, logged (ListEntities TABLE_NAME) v)"
    by (simp add: orders_listEntities_eq assms(1))
  have n: "new_order_id (scan_max (map fst t)) = order_id (max_suffix (map fst t) + 1)"
    using assms(2) by (rule new_order_id_scan)
  show ?thesis
    using assms(3) unfolding createOrder_def l
    by (auto simp: Let_def n split: prod.splits sum.splits)
qed

text \<open>
  C1. Starting from a store whose Orders table is empty, \<open>N\<close> calls of \<open>createOrder\<close>
  made one after the other, all served by the store, with \<open>N\<close> at most \<open>2^53\<close>, succeed;
  the \<open>i\<close>-th returns the order with id \<open>order_id i\<close>, and afterwards the row keys are
  \<open>order_id 1\<close>, ..., \<open>order_id N\<close> in turn: no gap, no duplicate. Any successful call,
  on any store whose largest numeric suffix among the row keys of the shape
  \<open>ORD-<digits>\<close> (0 when there is none) is below \<open>2^53\<close>, assigns the id of one plus
  that suffix, and \<open>order_id\<close> prints the number in decimal, padded with zeros on the left
  up to three digits.
\<close>

theorem createOrder_sequence_ids:
  assumes "orders w = Some []" and "served (2 * length ds) w" and "length ds \<le> 2 ^ 53"
  shows "(\<exists>w' t'. create_all ds w =
           (map (\<lambda>(i, d). Inr \<lparr>customer = customer d, amount = amount d, status = status d,
                               date = date d, ident = order_id i\<rparr>)
              (zip [1..<Suc (length ds)] ds), w')
         \<and> orders w' = Some t'
         \<and> map fst t' = map order_id [1..<Suc (length ds)]
         \<and> distinct (map fst t')
         \<and> set (map fst t') = order_id ` {1..length ds})
       \<and> (\<forall>d notify v t order v'.
             orders v = Some t \<longrightarrow> max_suffix (map fst t) < 2 ^ 53 \<longrightarrow>
             createOrder d notify v = (Inr order, v') \<longrightarrow>
             ident order = order_id (max_suffix (map fst t) + 1))
       \<and> (\<forall>i. order_id i =
             ''ORD-'' @ replicate (3 - length (string_of_nat i)) (CHR ''0'') @ string_of_nat i)"
proof (intro conjI allI impI)
  have k0: "map fst ([] :: Order table) = map order_id [1..<Suc 0]" by simp
  have b0: "0 + length ds \<le> 2 ^ 53" using assms(3) by simp
  from create_all_from[OF assms(1) k0 assms(2) b0] obtain w' t' where
    r: "create_all ds w =
           (map (\<lambda>(i, d). Inr \<lparr>customer = customer d, amount = amount d, status = status d,
                               date = date d, ident = order_id i\<rparr>)
              (zip [Suc 0..<Suc (0 + length ds)] ds), w')"
    and o: "orders w' = Some t'"
    and ks: "map fst t' = map order_id [1..<Suc (0 + length ds)]"
    by blast
  have r': "create_all ds w =
           (map (\<lambda>(i, d). Inr \<lparr>customer = customer d, amount = amount d, status = status d,
                               date = date d, ident = order_id i\<rparr>)
              (zip [1..<Suc (length ds)] ds), w')"
    using r by (simp del: upt_Suc)
  have ks': "map fst t' = map order_id [1..<Suc (length ds)]"
    using ks by (simp del: upt_Suc)
  have d: "distinct (map fst t')" using distinct_order_ids[of "length ds"] by (simp only: ks')
  have "set [1..<Suc (length ds)] = {1..length ds}"
    by (simp del: upt_Suc add: atLeastLessThanSuc_atLeastAtMost)
  then have s: "set (map fst t') = order_id ` {1..length ds}"
    by (simp only: ks' set_map)
  show "\<exists>w' t'. create_all ds w =
           (map (\<lambda>(i, d). Inr \<lparr>customer = customer d, amount = amount d, status = status d,
                               date = date d, ident = order_id i\<rparr>)
              (zip [1..<Suc (length ds)] ds), w')
         \<and> orders w' = Some t'
         \<and> map fst t' = map order_id [1..<Suc (length ds)]
         \<and> distinct (map fst t')
         \<and> set (map fst t') = order_id ` {1..length ds}"
    using r' o ks' d s by blast
next
  fix d notify v t order v'
  assume "orders v = Some t" "max_suffix (map fst t) < 2 ^ 53"
    "createOrder d notify v = (Inr order, v')"
  then show "ident order = order_id (max_suffix (map fst t) + 1)"
    by (rule createOrder_assigns)
next
  fix i
  show "order_id i = ''ORD-'' @ replicate (3 - length (string_of_nat i)) (CHR ''0'') @ string_of_nat i"
    by (simp add: order_id_def padStart_zero)
qed

theorem createOrder_sequence_ids_witness:
  "orders empty_store = Some []
   \<and> served 6 empty_store
   \<and> (3::nat) \<le> 2 ^ 53
   \<and> map fst (the (orders (snd (create_all
        [\<lparr>customer = ''Contoso Ltd.'', amount = Num 1, status = Submitted, date = ''2026-02-24''\<rparr>,
         \<lparr>customer = ''Fabrikam Inc.'', amount = Num 2, status = Submitted, date = ''2026-02-25''\<rparr>,
         \<lparr>customer = ''Contoso Ltd.'', amount = Num 3, status = Submitted, date = ''2026-02-26''\<rparr>]
        empty_store)))) = [''ORD-001'', ''ORD-002'', ''ORD-003'']"
proof -
  let ?ds = "[\<lparr>customer = ''Contoso Ltd.'', amount = Num 1, status = Submitted, date = ''2026-02-24''\<rparr>,
         \<lparr>customer = ''Fabrikam Inc.'', amount = Num 2, status = Submitted, date = ''2026-02-25''\<rparr>,
         \<lparr>customer = ''Contoso Ltd.'', amount = Num 3, status = Submitted, date = ''2026-02-26''\<rparr>]"
  have h1: "orders empty_store = Some []" by (simp add: empty_store_def)
  have h2: "served (2 * length ?ds) empty_store" by (simp add: served_def empty_store_def)
  have ids: "map order_id [1..<Suc (length ?ds)] = [''ORD-001'', ''ORD-002'', ''ORD-003'']"
    by code_simp
  have h3: "length ?ds \<le> 2 ^ 53" by simp
  from createOrder_sequence_ids[OF h1 h2 h3] obtain w' t' where
    "create_all ?ds empty_store =
           (map (\<lambda>(i, d). Inr \<lparr>customer = customer d, amount = amount d, status = status d,
                               date = date d, ident = order_id i\<rparr>)
              (zip [1..<Suc (length ?ds)] ?ds), w')"
    and "orders w' = Some t'" and "map fst t' = map order_id [1..<Suc (length ?ds)]"
    by blast
  then have "map fst (the (orders (snd (create_all ?ds empty_store)))) =
               [''ORD-001'', ''ORD-002'', ''ORD-003'']"
    by (simp only: ids snd_conv option.sel)
  then show ?thesis using h1 by (simp add: served_def empty_store_def)
qed

subsection \<open>Suffixes from \<open>2^53\<close>\<close>

lemma digit_chars:
  "char_of (48::nat) = CHR ''0''" "char_of (49::nat) = CHR ''1''"
  "char_of (50::nat) = CHR ''2''" "char_of (51::nat) = CHR ''3''"
  "char_of (52::nat) = CHR ''4''" "char_of (53::nat) = CHR ''5''"
  "char_of (54::nat) = CHR ''6''" "char_of (55::nat) = CHR ''7''"
  "char_of (56::nat) = CHR ''8''" "char_of (57::nat) = CHR ''9''"
  by code_simp+

lemma string_of_2_53: "string_of_nat 9007199254740992 = ''9007199254740992''"
  by (simp add: string_of_nat.simps digit_chars)

lemma match_above: "match_ord ''ORD-9007199254740993'' = Some ''9007199254740993''"
  by (simp add: match_ord_def is_digit_def)

lemma match_at: "match_ord ''ORD-9007199254740992'' = Some ''9007199254740992''"
  by (simp add: match_ord_def is_digit_def)

lemma value_above: "decimal_value ''9007199254740993'' = 9007199254740993"
  by (simp add: decimal_value_def)

lemma value_at: "decimal_value ''9007199254740992'' = 9007199254740992"
  by (simp add: decimal_value_def)

lemma below_overflow: "(9007199254740992::nat) < 2 ^ 1024"
proof -
  have "(2::nat) ^ 53 < 2 ^ 1024" by (rule power_strict_increasing) simp_all
  then show ?thesis by simp
qed

lemma parseInt_above: "parseInt ''9007199254740993'' = Val 9007199254740992"
  by (simp only: parseInt_def value_above to_double_def round53_2_53_1 below_overflow if_True)

lemma parseInt_at: "parseInt ''9007199254740992'' = Val 9007199254740992"
  by (simp only: parseInt_def value_at to_double_def round53_2_53 below_overflow if_True)

lemma plus_one_2_53: "plus_one (Val 9007199254740992) = Val 9007199254740992"
proof -
  have "(9007199254740992::nat) + 1 = 9007199254740993" by simp
  then show ?thesis
    by (simp only: plus_one.simps to_double_def round53_2_53_1 below_overflow if_True)
qed

lemma new_order_id_2_53: "new_order_id (Val 9007199254740992) = ''ORD-9007199254740992''"
proof -
  have "String_num (Val 9007199254740992) = ''9007199254740992''"
    by (simp add: String_num_def string_of_2_53)
  then show ?thesis
    unfolding new_order_id_def plus_one_2_53 by (simp add: padStart_def)
qed

lemma scan_above: "scan_max [''ORD-9007199254740993''] = Val 9007199254740992"
  by (simp add: scan_max_def match_above parseInt_above)

lemma scan_at: "scan_max [''ORD-9007199254740992''] = Val 9007199254740992"
  by (simp add: scan_max_def match_at parseInt_at)

lemma max_suffix_above: "max_suffix [''ORD-9007199254740993''] = 9007199254740993"
  using max_suffix_snoc[of "[]" "''ORD-9007199254740993''"]
  by (simp add: max_suffix_Nil match_above value_above)

lemma max_suffix_at: "max_suffix [''ORD-9007199254740992''] = 9007199254740992"
  using max_suffix_snoc[of "[]" "''ORD-9007199254740992''"]
  by (simp add: max_suffix_Nil match_at value_at)

text \<open>
  From \<open>2^53\<close> the doubles round. On a store whose one key has the suffix \<open>2^53 + 1\<close>
  the call assigns \<open>ORD-9007199254740992\<close>, which is not one plus the largest suffix; on
  a store whose one key has the suffix \<open>2^53\<close> the id it forms is that same key, and
  the insert fails.
\<close>

theorem createOrder_beyond_2_53_counterexample:
  "max_suffix [''ORD-9007199254740993''] + 1 = 9007199254740994
   \<and> fst (createOrder \<lparr>customer = ''Fabrikam Inc.'', amount = Num 10, status = Submitted,
                        date = ''2026-03-01''\<rparr> None suffix_above_2_53) =
       Inr \<lparr>customer = ''Fabrikam Inc.'', amount = Num 10, status = Submitted,
            date = ''2026-03-01'', ident = ''ORD-9007199254740992''\<rparr>
   \<and> max_suffix [''ORD-9007199254740992''] + 1 = 9007199254740993
   \<and> fst (createOrder \<lparr>customer = ''Fabrikam Inc.'', amount = Num 10, status = Submitted,
                        date = ''2026-03-01''\<rparr> None suffix_at_2_53) =
       Inl EntityAlreadyExists"
proof -
  have a: "fst (createOrder \<lparr>customer = ''Fabrikam Inc.'', amount = Num 10, status = Submitted,
                        date = ''2026-03-01''\<rparr> None suffix_above_2_53) =
       Inr \<lparr>customer = ''Fabrikam Inc.'', amount = Num 10, status = Submitted,
            date = ''2026-03-01'', ident = ''ORD-9007199254740992''\<rparr>"
    by (simp add: createOrder_def orders_listEntities_eq orders_createEntity_eq failing_def
        logged_def suffix_above_2_53_def scan_above new_order_id_2_53 Number_def Let_def)
  have b: "fst (createOrder \<lparr>customer = ''Fabrikam Inc.'', amount = Num 10, status = Submitted,
                        date = ''2026-03-01''\<rparr> None suffix_at_2_53) =
       Inl EntityAlreadyExists"
    by (simp add: createOrder_def orders_listEntities_eq orders_createEntity_eq failing_def
        logged_def suffix_at_2_53_def scan_at new_order_id_2_53 Let_def)
  show ?thesis by (simp add: a b max_suffix_above max_suffix_at)
qed

section \<open>renameCustomer\<close>

lemma orders_updateEntity_eq:
  "orders_updateEntity k v w =
     (if failing w then (Inl StoreUnavailable, logged (UpdateEntity TABLE_NAME k) w)
      else case orders w of
             None \<Rightarrow> (Inl TableNotFound, logged (UpdateEntity TABLE_NAME k) w)
           | Some t \<Rightarrow>
               if k \<in> set (map fst t)
               then (Inr (), put_orders (tbl_write k v t) (logged (UpdateEntity TABLE_NAME k) w))
               else (Inl ResourceNotFound, logged (UpdateEntity TABLE_NAME k) w))"
  by (simp add: orders_updateEntity_def table_call_def request_def with_unit_def
      tbl_replace_def split: option.splits)

lemma in_tbl_write_pair:
  "(a, b) \<in> set (tbl_write k v t) \<Longrightarrow> (a = k \<and> b = v) \<or> (a \<noteq> k \<and> (a, b) \<in> set t)"
  by (induction t) (auto split: if_splits)

lemma in_tbl_write:
  "r \<in> set (tbl_write k v t) \<Longrightarrow>
   (fst r = k \<and> snd r = v) \<or> (fst r \<noteq> k \<and> r \<in> set t)"
  using in_tbl_write_pair[of "fst r" "snd r" k v t] by simp

lemma rename_each_clears:
  assumes "rename_each new us w = (Inr u, w')" and "orders w = Some t" and "old \<noteq> new"
    and "\<forall>r\<in>set t. customer (snd r) = old \<longrightarrow> fst r \<in> ident ` set us"
  shows "\<exists>t'. orders w' = Some t' \<and> (\<forall>r\<in>set t'. customer (snd r) \<noteq> old)"
  using assms
proof (induction us arbitrary: w t)
  case Nil
  then show ?case by auto
next
  case (Cons ord rest)
  let ?k = "ident ord"
  let ?e = "\<lparr>customer = new, amount = amount ord, status = status ord, date = date ord,
             ident = ident ord\<rparr>"
  let ?w1 = "put_orders (tbl_write ?k ?e t) (logged (UpdateEntity TABLE_NAME ?k) w)"
  have ok: "orders_updateEntity ?k ?e w = (Inr (), ?w1)"
    using Cons.prems(1,2)
    by (auto simp: orders_updateEntity_eq split: if_splits)
  have rest: "rename_each new rest ?w1 = (Inr u, w')"
    using Cons.prems(1) by (simp add: ok)
  have o1: "orders ?w1 = Some (tbl_write ?k ?e t)" by simp
  have inv: "\<forall>r\<in>set (tbl_write ?k ?e t). customer (snd r) = old \<longrightarrow> fst r \<in> ident ` set rest"
  proof (intro ballI impI)
    fix r assume r: "r \<in> set (tbl_write ?k ?e t)" and c: "customer (snd r) = old"
    from in_tbl_write[OF r] c Cons.prems(3) have "fst r \<noteq> ?k" and "r \<in> set t" by auto
    with Cons.prems(4) c show "fst r \<in> ident ` set rest" by auto
  qed
  from Cons.IH[OF rest o1 Cons.prems(3) inv] show ?case .
qed

lemma ident_row_order [simp]: "ident (row_order r) = fst r"
  by (cases r) (simp add: row_order_def)

text \<open>
  C4. When \<open>renameCustomer(old, new)\<close> completes successfully, the count it returns is
  the number of orders whose customer was \<open>old\<close> before the call; and when \<open>new\<close> differs
  from \<open>old\<close>, no order of the store has customer \<open>old\<close> afterwards.
\<close>

theorem renameCustomer_count:
  assumes "renameCustomer old new w = (Inr n, w')"
  shows "n = count_customer old w \<and> (old \<noteq> new \<longrightarrow> count_customer old w' = 0)"
proof -
  from assms obtain t where t: "orders w = Some t" and nf: "\<not> failing w"
    by (cases "orders w"; cases "failing w")
       (auto simp: renameCustomer_def orders_listEntities_eq)
  let ?w1 = "logged (ListEntities TABLE_NAME) w"
  let ?us = "map row_order (filter (\<lambda>r. customer (snd r) = old) t)"
  have l: "orders_listEntities w = (Inr t, ?w1)"
    by (simp add: orders_listEntities_eq t nf)
  obtain x w2 where re: "rename_each new ?us ?w1 = (x, w2)"
    by (cases "rename_each new ?us ?w1")
  from assms have x: "x = Inr ()" and w2: "w2 = w'" and n: "n = length ?us"
    unfolding renameCustomer_def l by (auto simp: Let_def re split: sum.splits)
  have c: "n = count_customer old w" by (simp add: n count_customer_def t)
  have z: "count_customer old w' = 0" if neq: "old \<noteq> new"
  proof -
    have inv: "\<forall>r\<in>set t. customer (snd r) = old \<longrightarrow> fst r \<in> ident ` set ?us"
      by (auto simp: image_iff)
    have o1: "orders ?w1 = Some t" by (simp add: t)
    from re x w2 have "rename_each new ?us ?w1 = (Inr (), w')" by simp
    from rename_each_clears[OF this o1 neq inv]
    obtain t' where "orders w' = Some t'" and "\<forall>r\<in>set t'. customer (snd r) \<noteq> old" by blast
    then show ?thesis by (simp add: count_customer_def filter_empty_conv)
  qed
  from c z show ?thesis by blast
qed

theorem renameCustomer_count_witness:
  "fst (renameCustomer ''Contoso Ltd.'' ''Contoso Corp.'' three_orders) = Inr 2
   \<and> count_customer ''Contoso Ltd.'' three_orders = 2
   \<and> ''Contoso Ltd.'' \<noteq> ''Contoso Corp.''
   \<and> count_customer ''Contoso Ltd.''
        (snd (renameCustomer ''Contoso Ltd.'' ''Contoso Corp.'' three_orders)) = 0
   \<and> count_customer ''Contoso Corp.''
        (snd (renameCustomer ''Contoso Ltd.'' ''Contoso Corp.'' three_orders)) = 2"
proof -
  have h: "renameCustomer ''Contoso Ltd.'' ''Contoso Corp.'' three_orders =
             (Inr 2, snd (renameCustomer ''Contoso Ltd.'' ''Contoso Corp.'' three_orders))"
    by code_simp
  have n: "''Contoso Ltd.'' \<noteq> ''Contoso Corp.''" by simp
  have c: "count_customer ''Contoso Corp.''
        (snd (renameCustomer ''Contoso Ltd.'' ''Contoso Corp.'' three_orders)) = 2"
    by code_simp
  have f: "fst (renameCustomer ''Contoso Ltd.'' ''Contoso Corp.'' three_orders) = Inr 2"
    by (subst h) (rule fst_conv)
  from renameCustomer_count[OF h] n
  have a: "2 = count_customer ''Contoso Ltd.'' three_orders"
    and z: "count_customer ''Contoso Ltd.''
        (snd (renameCustomer ''Contoso Ltd.'' ''Contoso Corp.'' three_orders)) = 0"
    by blast+
  from a have b: "count_customer ''Contoso Ltd.'' three_orders = 2" by (rule sym)
  show ?thesis by (intro conjI f b n z c)
qed

text \<open>
  Renaming a customer to the name it already has completes successfully and leaves every
  one of its orders with that name: here two orders before, a count of two, and two
  orders after.
\<close>

theorem renameCustomer_same_name_counterexample:
  "fst (renameCustomer ''Contoso Ltd.'' ''Contoso Ltd.'' three_orders) = Inr 2
   \<and> count_customer ''Contoso Ltd.'' three_orders = 2
   \<and> count_customer ''Contoso Ltd.''
        (snd (renameCustomer ''Contoso Ltd.'' ''Contoso Ltd.'' three_orders)) = 2"
  by code_simp

section \<open>seedIfEmpty\<close>

lemma generateOrders_loop_eq:
  "generateOrders_loop rnd count i acc = acc @ map (seed_row rnd) [i..<Suc count]"
proof (induction rnd count i acc rule: generateOrders_loop.induct)
  case (1 rnd count i acc)
  show ?case
  proof (cases "i \<le> count")
    case True
    then have "i < Suc count" by simp
    then have u: "[i..<Suc count] = i # [Suc i..<Suc count]" by (rule upt_conv_Cons)
    from True 1 show ?thesis
      by (subst generateOrders_loop.simps) (simp only: u if_True list.map append_assoc append.simps)
  next
    case False
    then show ?thesis by (subst generateOrders_loop.simps) simp
  qed
qed

lemma generateOrders_eq: "generateOrders rnd n = map (seed_row rnd) [1..<Suc n]"
  by (simp only: generateOrders_def generateOrders_loop_eq append_Nil)

lemma fst_seed_row: "fst (seed_row rnd i) = order_id i"
  by (simp add: seed_row_def Let_def)

lemma keys_generateOrders: "map fst (generateOrders rnd n) = map order_id [1..<Suc n]"
  by (simp only: generateOrders_eq map_map comp_def fst_seed_row)

lemma length_generateOrders: "length (generateOrders rnd n) = n"
  by (simp add: generateOrders_eq del: upt_Suc)

lemma createTable_orders_eq:
  "createTable orders put_orders TABLE_NAME w =
     (if failing w then (Inl StoreUnavailable, logged (CreateTable TABLE_NAME) w)
      else case orders w of
             Some t \<Rightarrow> (Inl TableAlreadyExists, logged (CreateTable TABLE_NAME) w)
           | None \<Rightarrow> (Inr (), put_orders [] (logged (CreateTable TABLE_NAME) w)))"
  by (simp add: createTable_def request_def split: option.splits)

lemma orders_submitTransaction_eq:
  "orders_submitTransaction acts w =
     (if failing w
      then (Inl StoreUnavailable, logged (SubmitTransaction TABLE_NAME (map fst acts)) w)
      else case orders w of
             None \<Rightarrow> (Inl TableNotFound, logged (SubmitTransaction TABLE_NAME (map fst acts)) w)
           | Some t \<Rightarrow>
               if distinct (map fst acts) \<and> set (map fst acts) \<inter> set (map fst t) = {}
               then (Inr (), put_orders (t @ acts)
                               (logged (SubmitTransaction TABLE_NAME (map fst acts)) w))
               else (Inl EntityAlreadyExists,
                     logged (SubmitTransaction TABLE_NAME (map fst acts)) w))"
  by (simp add: orders_submitTransaction_def table_call_def request_def with_unit_def
      tbl_transaction_def split: option.splits)

text \<open>A store that holds a record: nothing is written, whatever the store's availability.\<close>

lemma seedIfEmpty_nonempty:
  assumes "orders w = Some t" and "t \<noteq> []"
  shows "orders (snd (seedIfEmpty rnd w)) = Some t
       \<and> calls (snd (seedIfEmpty rnd w)) =
           calls w @ [CreateTable TABLE_NAME, ListEntities TABLE_NAME]"
proof -
  have c: "snd (createTable orders put_orders TABLE_NAME w) = logged (CreateTable TABLE_NAME) w"
    by (simp add: createTable_orders_eq assms(1))
  obtain cr where c': "createTable orders put_orders TABLE_NAME w =
                         (cr, logged (CreateTable TABLE_NAME) w)"
    using c by (cases "createTable orders put_orders TABLE_NAME w") simp
  show ?thesis
    unfolding seedIfEmpty_def c'
    by (simp add: orders_listEntities_eq assms)
qed

text \<open>An empty store whose next three requests are served: the 100 rows are inserted.\<close>

lemma seedIfEmpty_empty:
  assumes "served 3 w" and "orders w = None \<or> orders w = Some []"
  shows "\<exists>w1. seedIfEmpty rnd w = (Inr (), w1)
       \<and> orders w1 = Some (generateOrders rnd 100)
       \<and> calls w1 = calls w @ [CreateTable TABLE_NAME, ListEntities TABLE_NAME,
                                SubmitTransaction TABLE_NAME (map order_id [1..<101])]"
proof -
  let ?c1 = "CreateTable TABLE_NAME" and ?c2 = "ListEntities TABLE_NAME"
  let ?c3 = "SubmitTransaction TABLE_NAME (map fst (generateOrders rnd 100))"
  have s3: "served (Suc (Suc (Suc 0))) w" using assms(1) by (simp add: numeral_3_eq_3)
  from served_Suc[OF s3, of ?c1] have nf0: "\<not> failing w"
    and s2: "served (Suc (Suc 0)) (logged ?c1 w)" by auto
  from served_Suc[OF s2, of ?c2] have nf1: "\<not> failing (logged ?c1 w)"
    and s1: "served (Suc 0) (logged ?c2 (logged ?c1 w))" by auto
  from served_Suc[OF s1, of ?c3] have nf2: "\<not> failing (logged ?c2 (logged ?c1 w))" by auto
  obtain cr w1 where c: "createTable orders put_orders TABLE_NAME w = (cr, w1)"
    and o1: "orders w1 = Some []" and f1: "\<not> failing w1"
    and l1: "logged ?c2 w1 = put_orders [] (logged ?c2 (logged ?c1 w))"
    and cs: "calls w1 = calls w @ [?c1]"
    using assms(2) nf0 nf1
    by (auto simp: createTable_orders_eq failing_def logged_def put_orders_def)
  have f2: "\<not> failing (logged ?c2 w1)"
    using nf2 by (simp add: l1 failing_def put_orders_def)
  have k: "map fst (generateOrders rnd 100) = map order_id [1..<101]"
    using keys_generateOrders[of rnd 100] by simp
  have d: "distinct (map fst (generateOrders rnd 100))"
    using distinct_order_ids[of 100] by (simp only: keys_generateOrders)
  show ?thesis
    unfolding seedIfEmpty_def c
    by (simp add: orders_listEntities_eq o1 f1 orders_submitTransaction_eq f2 d cs)
       (simp add: k)
qed


text \<open>
  C6. On a store whose Orders table is missing or empty, and which serves the three
  requests, \<open>seedIfEmpty\<close> inserts exactly 100 rows, with the distinct keys
  \<open>order_id 1\<close>, ..., \<open>order_id 100\<close>, by one transaction; a second call, whatever it
  draws, leaves these 100 rows as they are. On any store whose table holds at least one
  row the call writes nothing: the table is unchanged and the only requests sent are the
  table creation (whose failure is dropped) and the listing.
\<close>

theorem seedIfEmpty_idempotent:
  "(served 3 w \<and> (orders w = None \<or> orders w = Some []) \<longrightarrow>
      (\<exists>w1 rows. seedIfEmpty rnd w = (Inr (), w1)
         \<and> orders w1 = Some rows \<and> length rows = 100 \<and> distinct (map fst rows)
         \<and> map fst rows = map order_id [1..<101]
         \<and> calls w1 = calls w @ [CreateTable TABLE_NAME, ListEntities TABLE_NAME,
                                  SubmitTransaction TABLE_NAME (map order_id [1..<101])]
         \<and> (\<forall>rnd'. orders (snd (seedIfEmpty rnd' w1)) = Some rows
                   \<and> calls (snd (seedIfEmpty rnd' w1)) =
                       calls w1 @ [CreateTable TABLE_NAME, ListEntities TABLE_NAME])))
   \<and> (\<forall>t. orders w = Some t \<and> t \<noteq> [] \<longrightarrow>
        orders (snd (seedIfEmpty rnd w)) = Some t
        \<and> calls (snd (seedIfEmpty rnd w)) =
            calls w @ [CreateTable TABLE_NAME, ListEntities TABLE_NAME])"
proof (intro conjI impI allI)
  assume h: "served 3 w \<and> (orders w = None \<or> orders w = Some [])"
  then have s: "served 3 w" and e: "orders w = None \<or> orders w = Some []" by blast+
  from seedIfEmpty_empty[OF s e, of rnd] obtain w1 where
    r: "seedIfEmpty rnd w = (Inr (), w1)"
    and o: "orders w1 = Some (generateOrders rnd 100)"
    and c: "calls w1 = calls w @ [CreateTable TABLE_NAME, ListEntities TABLE_NAME,
                                SubmitTransaction TABLE_NAME (map order_id [1..<101])]"
    by blast
  let ?rows = "generateOrders rnd 100"
  have l: "length ?rows = 100" by (rule length_generateOrders)
  have k: "map fst ?rows = map order_id [1..<101]"
    using keys_generateOrders[of rnd 100] by simp
  have d: "distinct (map fst ?rows)"
    using distinct_order_ids[of 100] by (simp only: keys_generateOrders)
  have ne: "?rows \<noteq> []" using l by auto
  have again: "orders (snd (seedIfEmpty rnd' w1)) = Some ?rows
                   \<and> calls (snd (seedIfEmpty rnd' w1)) =
                       calls w1 @ [CreateTable TABLE_NAME, ListEntities TABLE_NAME]" for rnd'
    by (rule seedIfEmpty_nonempty[OF o ne])
  show "\<exists>w1 rows. seedIfEmpty rnd w = (Inr (), w1)
         \<and> orders w1 = Some rows \<and> length rows = 100 \<and> distinct (map fst rows)
         \<and> map fst rows = map order_id [1..<101]
         \<and> calls w1 = calls w @ [CreateTable TABLE_NAME, ListEntities TABLE_NAME,
                                  SubmitTransaction TABLE_NAME (map order_id [1..<101])]
         \<and> (\<forall>rnd'. orders (snd (seedIfEmpty rnd' w1)) = Some rows
                   \<and> calls (snd (seedIfEmpty rnd' w1)) =
                       calls w1 @ [CreateTable TABLE_NAME, ListEntities TABLE_NAME])"
    using r o l d k c again by blast
next
  fix t assume "orders w = Some t \<and> t \<noteq> []"
  then have "orders w = Some t" "t \<noteq> []" by blast+
  from seedIfEmpty_nonempty[OF this, of rnd]
  show "orders (snd (seedIfEmpty rnd w)) = Some t" by blast
next
  fix t assume "orders w = Some t \<and> t \<noteq> []"
  then have "orders w = Some t" "t \<noteq> []" by blast+
  from seedIfEmpty_nonempty[OF this, of rnd]
  show "calls (snd (seedIfEmpty rnd w)) =
            calls w @ [CreateTable TABLE_NAME, ListEntities TABLE_NAME]" by blast
qed

theorem seedIfEmpty_idempotent_witness:
  "served 3 empty_store \<and> orders empty_store = Some []
   \<and> fst (seedIfEmpty sample_draws empty_store) = Inr ()
   \<and> length (the (orders (snd (seedIfEmpty sample_draws empty_store)))) = 100
   \<and> length (the (orders (snd (seedIfEmpty sample_draws
                                   (snd (seedIfEmpty sample_draws empty_store)))))) = 100
   \<and> orders (snd (seedIfEmpty sample_draws three_orders)) = orders three_orders"
proof -
  have h1: "served 3 empty_store" by (simp add: served_def empty_store_def)
  have h2: "orders empty_store = Some []" by (simp add: empty_store_def)
  from seedIfEmpty_idempotent[of empty_store sample_draws] h1 h2
  obtain w1 rows where r: "seedIfEmpty sample_draws empty_store = (Inr (), w1)"
    and o: "orders w1 = Some rows" and l: "length rows = 100"
    and a: "orders (snd (seedIfEmpty sample_draws w1)) = Some rows"
    by blast
  obtain t where t: "orders three_orders = Some t" and ne: "t \<noteq> []"
    by (simp add: three_orders_def)
  from seedIfEmpty_idempotent[of three_orders sample_draws] t ne
  have n: "orders (snd (seedIfEmpty sample_draws three_orders)) = orders three_orders"
    by simp
  show ?thesis
    using h1 h2 n by (simp add: r o l a)
qed

section \<open>listOrders\<close>

lemma set_insert_cmp: "set (insert_cmp cmp x ys) = insert x (set ys)"
  by (induction ys) auto

lemma length_insert_cmp: "length (insert_cmp cmp x ys) = Suc (length ys)"
  by (induction ys) auto

lemma set_sort_cmp: "set (sort_cmp cmp xs) = set xs"
  by (induction xs) (auto simp: set_insert_cmp)

lemma length_sort_cmp: "length (sort_cmp cmp xs) = length xs"
  by (induction xs) (auto simp: length_insert_cmp)

lemma collates_le:
  "collates_order_keys lc \<Longrightarrow> is_order_key a \<Longrightarrow> is_order_key b \<Longrightarrow>
   (lc a b \<le> 0) = (a \<le> b)"
  by (simp add: collates_order_keys_def)

lemma sorted_insert_desc:
  assumes "collates_order_keys lc" and "is_order_key (ident x)"
    and "\<forall>y\<in>set ys. is_order_key (ident y)"
    and "sorted_wrt (\<lambda>a b. ident b \<le> ident a) ys"
  shows "sorted_wrt (\<lambda>a b. ident b \<le> ident a)
           (insert_cmp (\<lambda>a b. lc (ident b) (ident a)) x ys)"
  using assms(3,4)
proof (induction ys)
  case Nil
  show ?case by simp
next
  case (Cons y ys)
  have ky: "is_order_key (ident y)" using Cons.prems(1) by simp
  have c: "(lc (ident y) (ident x) \<le> 0) = (ident y \<le> ident x)"
    using assms(1) ky assms(2) by (rule collates_le)
  show ?case
  proof (cases "ident y \<le> ident x")
    case True
    then have "\<forall>z\<in>set ys. ident z \<le> ident x" using Cons.prems(2) by auto
    with True Cons.prems(2) show ?thesis by (simp add: c)
  next
    case False
    then have "ident x \<le> ident y" by simp
    moreover have "sorted_wrt (\<lambda>a b. ident b \<le> ident a)
           (insert_cmp (\<lambda>a b. lc (ident b) (ident a)) x ys)"
      using Cons.IH Cons.prems by simp
    ultimately show ?thesis
      using False Cons.prems(2) by (auto simp: c set_insert_cmp)
  qed
qed

lemma sorted_sort_desc:
  assumes "collates_order_keys lc" and "\<forall>x\<in>set xs. is_order_key (ident x)"
  shows "sorted_wrt (\<lambda>a b. ident b \<le> ident a)
           (sort_cmp (\<lambda>a b. lc (ident b) (ident a)) xs)"
  using assms(2)
proof (induction xs)
  case Nil
  show ?case by simp
next
  case (Cons x xs)
  have "\<forall>y\<in>set (sort_cmp (\<lambda>a b. lc (ident b) (ident a)) xs). is_order_key (ident y)"
    using Cons.prems by (simp add: set_sort_cmp)
  moreover have "sorted_wrt (\<lambda>a b. ident b \<le> ident a)
           (sort_cmp (\<lambda>a b. lc (ident b) (ident a)) xs)"
    using Cons by simp
  moreover have "is_order_key (ident x)" using Cons.prems by simp
  ultimately show ?case
    using sorted_insert_desc[OF assms(1)] by simp
qed

text \<open>Every id of an integer printed in full is a key of that shape.\<close>

lemma is_order_key_order_id: "is_order_key (order_id n)"
  by (simp add: is_order_key_def match_ord_order_id)

text \<open>
  C5. On a store whose row keys all have the shape \<open>ORD-<digits>\<close>, where the locale's
  collation has the sign of the lexicographic comparison, the list that \<open>listOrders\<close>
  returns is sorted by id descending: each element's id is lexicographically greater than
  or equal to the id of the element after it (and of every later element). The list
  holds the orders of the rows of the table, as many as there are rows.
\<close>

theorem listOrders_sorted_desc:
  assumes "listOrders localeCompare w = (Inr os, w')"
    and "collates_order_keys localeCompare"
    and "\<forall>t. orders w = Some t \<longrightarrow> (\<forall>k\<in>set (map fst t). is_order_key k)"
  shows "(\<forall>i. Suc i < length os \<longrightarrow> ident (os ! Suc i) \<le> ident (os ! i))
       \<and> sorted_wrt (\<lambda>a b. ident b \<le> ident a) os
       \<and> (\<exists>t. orders w = Some t \<and> set os = row_order ` set t \<and> length os = length t)"
proof -
  from assms(1) obtain t where t: "orders w = Some t" and nf: "\<not> failing w"
    by (cases "orders w"; cases "failing w")
       (auto simp: listOrders_def orders_listEntities_eq)
  have os: "os = sort_cmp (\<lambda>a b. localeCompare (ident b) (ident a)) (map row_order t)"
    using assms(1) by (simp add: listOrders_def orders_listEntities_eq t nf)
  have keys: "\<forall>x\<in>set (map row_order t). is_order_key (ident x)"
    using assms(3) t by auto
  have s: "sorted_wrt (\<lambda>a b. ident b \<le> ident a) os"
    unfolding os using assms(2) keys by (rule sorted_sort_desc)
  have adj: "ident (os ! Suc i) \<le> ident (os ! i)" if "Suc i < length os" for i
    using sorted_wrt_nth_less[OF s, of i "Suc i"] that by simp
  have "set os = row_order ` set t \<and> length os = length t"
    by (simp add: os set_sort_cmp length_sort_cmp)
  with t s adj show ?thesis by blast
qed

lemma collates_compare_chars: "collates_order_keys compare_chars"
  by (auto simp: collates_order_keys_def compare_chars_def)

theorem listOrders_sorted_desc_witness:
  "collates_order_keys compare_chars
   \<and> list_all is_order_key [''ORD-001'', ''ORD-002'', ''ORD-003'']
   \<and> map ident (projr (fst (listOrders compare_chars three_orders))) =
       [''ORD-003'', ''ORD-002'', ''ORD-001'']
   \<and> ''ORD-002'' \<le> ''ORD-003'' \<and> ''ORD-001'' \<le> ''ORD-002''"
proof -
  have h: "listOrders compare_chars three_orders =
             (Inr (projr (fst (listOrders compare_chars three_orders))),
              snd (listOrders compare_chars three_orders))"
    by code_simp
  have v: "map ident (projr (fst (listOrders compare_chars three_orders))) =
             [''ORD-003'', ''ORD-002'', ''ORD-001'']"
    by code_simp
  have ks: "list_all is_order_key [''ORD-001'', ''ORD-002'', ''ORD-003'']"
    by code_simp
  have k: "\<forall>t. orders three_orders = Some t \<longrightarrow> (\<forall>k\<in>set (map fst t). is_order_key k)"
    using ks by (simp add: three_orders_def)
  from listOrders_sorted_desc[OF h collates_compare_chars k]
  have "sorted_wrt (\<lambda>a b. ident b \<le> ident a)
          (projr (fst (listOrders compare_chars three_orders)))"
    by blast
  then have "sorted_wrt (\<lambda>a b. b \<le> a)
               (map ident (projr (fst (listOrders compare_chars three_orders))))"
    by (simp add: sorted_wrt_map)
  then have "''ORD-002'' \<le> ''ORD-003'' \<and> ''ORD-001'' \<le> ''ORD-002''"
    unfolding v by simp
  with v ks collates_compare_chars show ?thesis by blast
qed

subsection \<open>Keys of another shape\<close>

lemma to_lower_digit: "is_digit c \<Longrightarrow> to_lower c = c"
  by (simp add: is_digit_def to_lower_def)

lemma append_less_append: "(xs @ ys < xs @ zs) = (ys < (zs :: string))"
  by (induction xs) simp_all

lemma folded_order_key:
  assumes "is_order_key a"
  shows "a = ''ORD-'' @ drop 4 a" and "map to_lower a = ''ord-'' @ drop 4 a"
proof -
  from assms have t: "take 4 a = ''ORD-''" and d: "list_all is_digit (drop 4 a)"
    by (simp_all add: is_order_key_def match_ord_def split: if_splits)
  have "a = take 4 a @ drop 4 a" by simp
  then show a: "a = ''ORD-'' @ drop 4 a" by (simp only: t)
  have "map to_lower (drop 4 a) = drop 4 a"
    using d by (simp add: list_all_iff map_idI to_lower_digit)
  moreover have "map to_lower ''ORD-'' = ''ord-''" by code_simp
  ultimately show "map to_lower a = ''ord-'' @ drop 4 a"
    by (subst a) (simp only: map_append)
qed

lemma folded_less:
  assumes "is_order_key a" and "is_order_key b"
  shows "(map to_lower a < map to_lower b) = (a < b)"
proof -
  have "(map to_lower a < map to_lower b) = (drop 4 a < drop 4 b)"
    by (simp only: folded_order_key(2)[OF assms(1)] folded_order_key(2)[OF assms(2)]
        append_less_append)
  also have "\<dots> = (''ORD-'' @ drop 4 a < ''ORD-'' @ drop 4 b)"
    by (simp only: append_less_append)
  also have "\<dots> = (a < b)"
    using folded_order_key(1)[OF assms(1)] folded_order_key(1)[OF assms(2)] by simp
  finally show ?thesis .
qed

text \<open>The case-folding collation has the sign of the lexicographic order on such keys.\<close>

lemma collates_compare_folded: "collates_order_keys compare_folded"
  unfolding collates_order_keys_def
proof (intro allI impI)
  fix a b :: string
  assume k: "is_order_key a \<and> is_order_key b"
  then have ab: "(map to_lower a < map to_lower b) = (a < b)"
    and ba: "(map to_lower b < map to_lower a) = (b < a)"
    by (simp_all add: folded_less)
  show "(compare_folded a b < 0) = (a < b) \<and> (compare_folded a b \<le> 0) = (a \<le> b)"
    by (auto simp: compare_folded_def compare_chars_def ab ba)
qed

text \<open>
  On the keys \<open>ORD-001\<close>, \<open>ORD-003\<close>, \<open>Ord-004\<close> and \<open>ord-002\<close> a collation that ranks
  letters without regard to case puts \<open>ord-002\<close> after \<open>ORD-003\<close>, which is
  lexicographically smaller: the list is not lexicographically descending.
\<close>

theorem listOrders_mixed_case_counterexample:
  "collates_order_keys compare_folded
   \<and> map ident (projr (fst (listOrders compare_folded mixed_case_orders))) =
       [''Ord-004'', ''ORD-003'', ''ord-002'', ''ORD-001'']
   \<and> \<not> ''ord-002'' \<le> ''ORD-003''"
proof -
  have v: "map ident (projr (fst (listOrders compare_folded mixed_case_orders))) =
             [''Ord-004'', ''ORD-003'', ''ord-002'', ''ORD-001'']"
    by code_simp
  have n: "\<not> ''ord-002'' \<le> ''ORD-003''" by simp
  from collates_compare_folded v n show ?thesis by blast
qed

end
